theory Spec2Isabelle
  imports Complex_Main "HOL-Library.Sublist"
begin

section \<open>InGame widget wrappers (ingame/objects.py)\<close>

text \<open>
  The module wraps four tkinter primitives (Button, Label as Text, Label with a
  PhotoImage as Image, Entry as Input). Every method is a short sequence of calls into
  tkinter, requests and Pillow. The embedding keeps the wrapper code as it is written
  and makes the libraries explicit: a \<open>world\<close> holds what the libraries hold (the native
  widgets, the PhotoImage resources, the HTTP requests sent and the sources handed to
  the decoder), and an \<open>env\<close> says where a library call raises and what the network and
  the decoder deliver. Theorems quantify over every \<open>env\<close>.
\<close>

subsection \<open>Python values and errors\<close>

text \<open>
  Modelled from the spec: \<open>Screen\<close> is defined in ingame/core.py; the spec says only that
  a Screen exposes a \<open>root\<close> container handle that native widgets attach to.
\<close>

record Screen =
  root :: nat

text \<open>Values of type \<open>Any\<close>: keyword values, and whatever a caller passes as \<open>screen_obj\<close>.\<close>

datatype pyval =
    PyNone
  | PyBool bool
  | PyInt int
  | PyStr string
  | PyScreen Screen
  | PyPhotoImage nat
  | PyObject nat

text \<open>
  A keyword dictionary (\<open>**kwargs\<close>): keyword names with their values, in insertion
  order. \<open>packargs\<close> is a \<open>dict[Any, Optional[Any]]\<close>, whose keys can be any value.
\<close>

type_synonym kwargs = "(string \<times> pyval) list"

type_synonym pydict = "(pyval \<times> pyval) list"

datatype error =
    TypeError string
  | HTTPError int
  | ZeroDivisionError
  | OverflowError
  | ImportError string
  | LibraryError string

text \<open>\<open>isinstance(v, str)\<close> and \<open>isinstance(screen_obj, Screen)\<close>.\<close>

fun is_str :: "pyval \<Rightarrow> bool" where
  "is_str (PyStr s) = True"
| "is_str v = False"

fun isinstance_Screen :: "pyval \<Rightarrow> bool" where
  "isinstance_Screen (PyScreen s) = True"
| "isinstance_Screen v = False"

fun the_Screen :: "pyval \<Rightarrow> Screen" where
  "the_Screen (PyScreen s) = s"
| "the_Screen v = \<lparr>root = 0\<rparr>"

subsection \<open>Python arithmetic: true division, float product, int()\<close>

text \<open>
  \<open>int(orig_h * (width / orig_w))\<close> is float arithmetic: \<open>/\<close> on two ints is the
  correctly rounded binary64 quotient, the product converts the int to binary64 and
  rounds again, and \<open>int\<close> truncates towards zero. A finite binary64 number is a pair
  \<open>(m, e)\<close> with value \<open>m * 2 ^ e\<close>.
\<close>

type_synonym double = "int \<times> int"

datatype pyfloat = Finite double | Infinity

text \<open>\<open>n.bit_length()\<close> for \<open>0 \<le> n\<close>.\<close>

function bit_length :: "int \<Rightarrow> int" where
  "bit_length n = (if n \<le> 0 then 0 else 1 + bit_length (n div 2))"
  by pat_completeness auto
termination
  by (relation "measure nat") auto

declare bit_length.simps [simp del]

text \<open>Nearest integer to \<open>n / d\<close> for \<open>0 \<le> n\<close> and \<open>0 < d\<close>, ties to even.\<close>

definition round_half_even :: "int \<Rightarrow> int \<Rightarrow> int" where
  "round_half_even n d =
     (let q = n div d; r = n mod d
      in if 2 * r < d then q
         else if d < 2 * r then q + 1
         else if even q then q else q + 1)"

text \<open>\<open>\<lfloor>log\<^sub>2 (p / d)\<rfloor>\<close> for positive \<open>p\<close> and \<open>d\<close>.\<close>

definition floor_log2 :: "int \<Rightarrow> int \<Rightarrow> int" where
  "floor_log2 p d =
     (let k = bit_length p - bit_length d
      in if (if 0 \<le> k then d * 2 ^ nat k \<le> p else d \<le> p * 2 ^ nat (- k))
         then k else k - 1)"

text \<open>
  The binary64 number nearest to \<open>p / d\<close> (\<open>0 < d\<close>), ties to even: 53 significant bits,
  least exponent \<open>-1074\<close>, and \<open>Infinity\<close> from \<open>2 ^ 1024\<close> on.
\<close>

definition round_to_double :: "int \<Rightarrow> int \<Rightarrow> pyfloat" where
  "round_to_double p d =
     (if p = 0 then Finite (0, 0)
      else
        let a = \<bar>p\<bar>;
            e = max (floor_log2 a d - 52) (- 1074);
            m = (if 0 \<le> e then round_half_even a (d * 2 ^ nat e)
                 else round_half_even (a * 2 ^ nat (- e)) d)
        in if 971 < e \<or> (e = 971 \<and> 2 ^ 53 \<le> m) then Infinity
           else Finite (sgn p * m, e))"

text \<open>\<open>a / b\<close> on ints.\<close>

definition py_truediv :: "int \<Rightarrow> int \<Rightarrow> error + double" where
  "py_truediv a b =
     (if b = 0 then Inl ZeroDivisionError
      else case round_to_double (a * sgn b) \<bar>b\<bar> of
             Infinity \<Rightarrow> Inl OverflowError
           | Finite x \<Rightarrow> Inr x)"

text \<open>\<open>n * x\<close> for an int \<open>n\<close> and a finite float \<open>x\<close>: \<open>n\<close> is converted first.\<close>

definition py_mul :: "int \<Rightarrow> double \<Rightarrow> error + pyfloat" where
  "py_mul n x =
     (case round_to_double n 1 of
        Infinity \<Rightarrow> Inl OverflowError
      | Finite (m1, e1) \<Rightarrow>
          (case x of (m2, e2) \<Rightarrow>
             Inr (if 0 \<le> e1 + e2 then round_to_double (m1 * m2 * 2 ^ nat (e1 + e2)) 1
                  else round_to_double (m1 * m2) (2 ^ nat (- (e1 + e2))))))"

text \<open>\<open>int(x)\<close>.\<close>

fun py_int :: "pyfloat \<Rightarrow> error + int" where
  "py_int Infinity = Inl OverflowError"
| "py_int (Finite (m, e)) =
     Inr (if 0 \<le> e then m * 2 ^ nat e else sgn m * (\<bar>m\<bar> div 2 ^ nat (- e)))"

text \<open>The number a pair \<open>(m, e)\<close> stands for.\<close>

definition double_value :: "double \<Rightarrow> real" where
  "double_value x = real_of_int (fst x) * 2 powi snd x"

text \<open>\<open>int(orig * (given / given_orig))\<close>.\<close>

definition scaled_dim :: "int \<Rightarrow> int \<Rightarrow> int \<Rightarrow> error + int" where
  "scaled_dim orig given given_orig =
     (case py_truediv given given_orig of
        Inl err \<Rightarrow> Inl err
      | Inr r \<Rightarrow>
          (case py_mul orig r of
             Inl err \<Rightarrow> Inl err
           | Inr x \<Rightarrow> py_int x))"

subsection \<open>What the libraries hold\<close>

datatype widget_kind = ButtonWidget | LabelWidget | EntryWidget

text \<open>
  A native widget as Tk holds it: its class, its master, its configuration options, the
  options of its last \<open>pack\<close> (\<open>None\<close> while it is not packed), whether it still exists,
  and, for an entry, the text in the field.
\<close>

record tk_widget =
  kind :: widget_kind
  master :: nat
  options :: kwargs
  pack_options :: "pydict option"
  alive :: bool
  entry_text :: string

text \<open>A \<open>requests\<close> response, and what \<open>PILImage.open\<close> is given and returns.\<close>

record response =
  status_code :: int
  content :: string

datatype img_source = FromBytes string | FromPath string

record pil_image =
  pil_size :: "int \<times> int"
  pixels :: nat

datatype pil_call = Open img_source | Resize pil_image "int \<times> int"

text \<open>
  A widget's handle is its index in \<open>widgets\<close>, a PhotoImage's its index in
  \<open>photo_images\<close>. \<open>requests_sent\<close> and \<open>pil_calls\<close> list the HTTP requests and the Pillow
  calls made so far, in order.
\<close>

record world =
  widgets :: "tk_widget list"
  photo_images :: "pil_image list"
  requests_sent :: "string list"
  pil_calls :: "pil_call list"

text \<open>
  What this module does not decide: whether a module can be imported, whether a native
  call raises (Tk validates option
  names and values, and decides what happens to a destroyed widget), what the network
  answers, what the decoder and the resampling filter make of their input, and the text
  a new entry starts with.
\<close>

record env =
  import_error :: "string \<Rightarrow> error option"
  tk_create_error :: "world \<Rightarrow> widget_kind \<Rightarrow> nat \<Rightarrow> kwargs \<Rightarrow> error option"
  tk_initial_text :: "world \<Rightarrow> kwargs \<Rightarrow> string"
  tk_pack_error :: "world \<Rightarrow> nat \<Rightarrow> pydict \<Rightarrow> error option"
  tk_config_error :: "world \<Rightarrow> nat \<Rightarrow> kwargs \<Rightarrow> error option"
  tk_destroy_error :: "world \<Rightarrow> nat \<Rightarrow> error option"
  tk_get_error :: "world \<Rightarrow> nat \<Rightarrow> error option"
  http_response :: "world \<Rightarrow> string \<Rightarrow> error + response"
  pil_decode :: "world \<Rightarrow> img_source \<Rightarrow> error + pil_image"
  pil_resample :: "pil_image \<Rightarrow> int \<times> int \<Rightarrow> error + nat"
  photo_image_error :: "world \<Rightarrow> pil_image \<Rightarrow> error option"

subsection \<open>The library calls\<close>

definition update_widget :: "nat \<Rightarrow> (tk_widget \<Rightarrow> tk_widget) \<Rightarrow> world \<Rightarrow> world" where
  "update_widget h f w =
     (if h < length (widgets w) then w\<lparr>widgets := (widgets w)[h := f (widgets w ! h)]\<rparr>
      else w)"

text \<open>\<open>tk.Button(master, **kw)\<close>, \<open>tk.Label(master, **kw)\<close>, \<open>tk.Entry(master, **kw)\<close>.\<close>

definition tk_new :: "env \<Rightarrow> widget_kind \<Rightarrow> nat \<Rightarrow> kwargs \<Rightarrow> world \<Rightarrow> world \<times> (error + nat)" where
  "tk_new E k parent kw w =
     (case tk_create_error E w k parent kw of
        Some err \<Rightarrow> (w, Inl err)
      | None \<Rightarrow>
          (w\<lparr>widgets := widgets w @
                [\<lparr>kind = k, master = parent, options = kw, pack_options = None,
                  alive = True, entry_text = tk_initial_text E w kw\<rparr>]\<rparr>,
           Inr (length (widgets w))))"

text \<open>
  \<open>widget.pack(**opts)\<close>. Expanding a dictionary with \<open>**\<close> is a TypeError when a key is
  not a string; the call is not made then.
\<close>

definition tk_pack :: "env \<Rightarrow> nat \<Rightarrow> pydict \<Rightarrow> world \<Rightarrow> world \<times> (error + unit)" where
  "tk_pack E h opts w =
     (if \<not> list_all (\<lambda>kv. is_str (fst kv)) opts
      then (w, Inl (TypeError ''keywords must be strings''))
      else
        case tk_pack_error E w h opts of
          Some err \<Rightarrow> (w, Inl err)
        | None \<Rightarrow> (update_widget h (\<lambda>x. x\<lparr>pack_options := Some opts\<rparr>) w, Inr ()))"

text \<open>An option given again replaces the old value; a new one is added.\<close>

definition set_options :: "kwargs \<Rightarrow> kwargs \<Rightarrow> kwargs" where
  "set_options old new = [(k, v) \<leftarrow> old. k \<notin> fst ` set new] @ new"

text \<open>\<open>widget.config(**kw)\<close>.\<close>

definition tk_config :: "env \<Rightarrow> nat \<Rightarrow> kwargs \<Rightarrow> world \<Rightarrow> world \<times> (error + unit)" where
  "tk_config E h kw w =
     (case tk_config_error E w h kw of
        Some err \<Rightarrow> (w, Inl err)
      | None \<Rightarrow> (update_widget h (\<lambda>x. x\<lparr>options := set_options (options x) kw\<rparr>) w, Inr ()))"

text \<open>\<open>widget.destroy()\<close>.\<close>

definition tk_destroy :: "env \<Rightarrow> nat \<Rightarrow> world \<Rightarrow> world \<times> (error + unit)" where
  "tk_destroy E h w =
     (case tk_destroy_error E w h of
        Some err \<Rightarrow> (w, Inl err)
      | None \<Rightarrow> (update_widget h (\<lambda>x. x\<lparr>alive := False, pack_options := None\<rparr>) w, Inr ()))"

text \<open>\<open>entry.get()\<close>: a read.\<close>

definition tk_get :: "env \<Rightarrow> nat \<Rightarrow> world \<Rightarrow> error + string" where
  "tk_get E h w =
     (case tk_get_error E w h of
        Some err \<Rightarrow> Inl err
      | None \<Rightarrow>
          if h < length (widgets w) then Inr (entry_text (widgets w ! h))
          else Inl (LibraryError ''invalid command name''))"

text \<open>
  The text of an entry changes outside this module: the user types, or the entry's text
  variable is set.
\<close>

definition tk_set_text :: "nat \<Rightarrow> string \<Rightarrow> world \<Rightarrow> world" where
  "tk_set_text h s w = update_widget h (\<lambda>x. x\<lparr>entry_text := s\<rparr>) w"

text \<open>\<open>requests.get(url)\<close> and \<open>resp.raise_for_status()\<close> (statuses 400 to 599 raise).\<close>

definition requests_get :: "env \<Rightarrow> string \<Rightarrow> world \<Rightarrow> world \<times> (error + response)" where
  "requests_get E url w =
     (w\<lparr>requests_sent := requests_sent w @ [url]\<rparr>, http_response E w url)"

definition raise_for_status :: "response \<Rightarrow> error + unit" where
  "raise_for_status resp =
     (if 400 \<le> status_code resp \<and> status_code resp < 600
      then Inl (HTTPError (status_code resp)) else Inr ())"

text \<open>\<open>PILImage.open(img_data)\<close> and \<open>pil_img.resize((width, height), PILImage.LANCZOS)\<close>.\<close>

definition PILImage_open :: "env \<Rightarrow> img_source \<Rightarrow> world \<Rightarrow> world \<times> (error + pil_image)" where
  "PILImage_open E src w =
     (w\<lparr>pil_calls := pil_calls w @ [Open src]\<rparr>, pil_decode E w src)"

definition resize :: "env \<Rightarrow> pil_image \<Rightarrow> int \<times> int \<Rightarrow> world \<Rightarrow> world \<times> (error + pil_image)" where
  "resize E img sz w =
     (w\<lparr>pil_calls := pil_calls w @ [Resize img sz]\<rparr>,
      case pil_resample E img sz of
        Inl err \<Rightarrow> Inl err
      | Inr px \<Rightarrow> Inr \<lparr>pil_size = sz, pixels = px\<rparr>)"

text \<open>\<open>ImageTk.PhotoImage(pil_img)\<close>.\<close>

definition PhotoImage :: "env \<Rightarrow> pil_image \<Rightarrow> world \<Rightarrow> world \<times> (error + nat)" where
  "PhotoImage E img w =
     (case photo_image_error E w img of
        Some err \<Rightarrow> (w, Inl err)
      | None \<Rightarrow> (w\<lparr>photo_images := photo_images w @ [img]\<rparr>, Inr (length (photo_images w))))"

subsection \<open>The widget classes\<close>

text \<open>
  Each instance holds the handle of its native widget; an Image also holds its
  PhotoImage (the field \<open>_photo_image\<close>).
\<close>

record Button =
  button_obj :: nat

record Text =
  text_obj :: nat

record Image =
  image_obj :: nat
  photo_image :: nat

record Input =
  input_obj :: nat

text \<open>
  \<open>if packargs is None: packargs = {}\<close>, and the comprehension
  \<open>{k: v for k, v in packargs.items() if v is not None}\<close>.
\<close>

definition packargs_or_empty :: "pydict option \<Rightarrow> pydict" where
  "packargs_or_empty packargs = (case packargs of None \<Rightarrow> [] | Some d \<Rightarrow> d)"

definition pack_kwargs :: "pydict \<Rightarrow> pydict" where
  "pack_kwargs packargs = [(k, v). (k, v) \<leftarrow> packargs, v \<noteq> PyNone]"

definition not_a_Screen :: error where
  "not_a_Screen = TypeError ''screen_obj must be an instance of Screen''"

text \<open>\<open>Button.__init__(self, screen_obj, /, packargs=None, **kwargs)\<close>.\<close>

definition Button_init ::
  "env \<Rightarrow> pyval \<Rightarrow> pydict option \<Rightarrow> kwargs \<Rightarrow> world \<Rightarrow> world \<times> (error + Button)" where
  "Button_init E screen_obj packargs kwargs w =
     (if \<not> isinstance_Screen screen_obj then (w, Inl not_a_Screen)
      else
        let packargs = packargs_or_empty packargs
        in case tk_new E ButtonWidget (root (the_Screen screen_obj)) kwargs w of
             (w1, Inl err) \<Rightarrow> (w1, Inl err)
           | (w1, Inr b) \<Rightarrow>
               (case tk_pack E b (pack_kwargs packargs) w1 of
                  (w2, Inl err) \<Rightarrow> (w2, Inl err)
                | (w2, Inr u) \<Rightarrow> (w2, Inr \<lparr>button_obj = b\<rparr>)))"

text \<open>\<open>Text.__init__(self, screen_obj, /, packargs=None, **kwargs)\<close>.\<close>

definition Text_init ::
  "env \<Rightarrow> pyval \<Rightarrow> pydict option \<Rightarrow> kwargs \<Rightarrow> world \<Rightarrow> world \<times> (error + Text)" where
  "Text_init E screen_obj packargs kwargs w =
     (if \<not> isinstance_Screen screen_obj then (w, Inl not_a_Screen)
      else
        let packargs = packargs_or_empty packargs
        in case tk_new E LabelWidget (root (the_Screen screen_obj)) kwargs w of
             (w1, Inl err) \<Rightarrow> (w1, Inl err)
           | (w1, Inr t) \<Rightarrow>
               (case tk_pack E t (pack_kwargs packargs) w1 of
                  (w2, Inl err) \<Rightarrow> (w2, Inl err)
                | (w2, Inr u) \<Rightarrow> (w2, Inr \<lparr>text_obj = t\<rparr>)))"

text \<open>\<open>Input.__init__(self, screen_obj, /, packargs=None, **kwargs)\<close>.\<close>

definition Input_init ::
  "env \<Rightarrow> pyval \<Rightarrow> pydict option \<Rightarrow> kwargs \<Rightarrow> world \<Rightarrow> world \<times> (error + Input)" where
  "Input_init E screen_obj packargs kwargs w =
     (if \<not> isinstance_Screen screen_obj then (w, Inl not_a_Screen)
      else
        let packargs = packargs_or_empty packargs
        in case tk_new E EntryWidget (root (the_Screen screen_obj)) kwargs w of
             (w1, Inl err) \<Rightarrow> (w1, Inl err)
           | (w1, Inr i) \<Rightarrow>
               (case tk_pack E i (pack_kwargs packargs) w1 of
                  (w2, Inl err) \<Rightarrow> (w2, Inl err)
                | (w2, Inr u) \<Rightarrow> (w2, Inr \<lparr>input_obj = i\<rparr>)))"

subsection \<open>Image\<close>

text \<open>\<open>s.startswith(p)\<close>.\<close>

definition startswith :: "string \<Rightarrow> string \<Rightarrow> bool" where
  "startswith s p = (take (length p) s = p)"

definition is_url :: "string \<Rightarrow> bool" where
  "is_url source = (startswith source ''http://'' \<or> startswith source ''https://'')"

text \<open>
  Lines 139 to 145: a URL is fetched and its body wrapped in a \<open>BytesIO\<close>; anything else
  is taken as a path.
\<close>

definition load_source :: "env \<Rightarrow> string \<Rightarrow> world \<Rightarrow> world \<times> (error + img_source)" where
  "load_source E source w =
     (if is_url source then
        (case requests_get E source w of
           (w1, Inl err) \<Rightarrow> (w1, Inl err)
         | (w1, Inr resp) \<Rightarrow>
             (case raise_for_status resp of
                Inl err \<Rightarrow> (w1, Inl err)
              | Inr u \<Rightarrow> (w1, Inr (FromBytes (content resp)))))
      else (w, Inr (FromPath source)))"

text \<open>The truth value of an \<open>Optional[int]\<close>: \<open>None\<close> and \<open>0\<close> are false.\<close>

fun truthy :: "int option \<Rightarrow> bool" where
  "truthy None = False"
| "truthy (Some n) = (n \<noteq> 0)"

text \<open>
  Lines 148 to 155: the size passed to \<open>resize\<close>, \<open>None\<close> when the image is not resized.
  \<open>the\<close> is applied to truthy arguments only.
\<close>

definition resize_to ::
  "int option \<Rightarrow> int option \<Rightarrow> int \<times> int \<Rightarrow> (error + int \<times> int) option" where
  "resize_to width height orig =
     (if truthy width \<or> truthy height then
        (case orig of (orig_w, orig_h) \<Rightarrow>
           if truthy width \<and> \<not> truthy height then
             (case scaled_dim orig_h (the width) orig_w of
                Inl err \<Rightarrow> Some (Inl err)
              | Inr h \<Rightarrow> Some (Inr (the width, h)))
           else if truthy height \<and> \<not> truthy width then
             (case scaled_dim orig_w (the height) orig_h of
                Inl err \<Rightarrow> Some (Inl err)
              | Inr w' \<Rightarrow> Some (Inr (w', the height)))
           else Some (Inr (the width, the height)))
      else None)"

definition resize_step ::
  "env \<Rightarrow> int option \<Rightarrow> int option \<Rightarrow> pil_image \<Rightarrow> world \<Rightarrow> world \<times> (error + pil_image)" where
  "resize_step E width height pil_img w =
     (case resize_to width height (pil_size pil_img) of
        None \<Rightarrow> (w, Inr pil_img)
      | Some (Inl err) \<Rightarrow> (w, Inl err)
      | Some (Inr sz) \<Rightarrow> resize E pil_img sz w)"

text \<open>
  Lines 157 to 159. \<open>tk.Label(screen_obj.root, image=self._photo_image, **kwargs)\<close> is
  a TypeError when \<open>kwargs\<close> has an \<open>image\<close> of its own.
\<close>

definition show_image ::
  "env \<Rightarrow> Screen \<Rightarrow> pydict \<Rightarrow> kwargs \<Rightarrow> pil_image \<Rightarrow> world \<Rightarrow> world \<times> (error + Image)" where
  "show_image E screen packargs kwargs pil_img w =
     (case PhotoImage E pil_img w of
        (w1, Inl err) \<Rightarrow> (w1, Inl err)
      | (w1, Inr p) \<Rightarrow>
          if ''image'' \<in> fst ` set kwargs
          then (w1, Inl (TypeError ''got multiple values for keyword argument image''))
          else
            (case tk_new E LabelWidget (root screen) ((''image'', PyPhotoImage p) # kwargs) w1 of
               (w2, Inl err) \<Rightarrow> (w2, Inl err)
             | (w2, Inr l) \<Rightarrow>
                 (case tk_pack E l (pack_kwargs packargs) w2 of
                    (w3, Inl err) \<Rightarrow> (w3, Inl err)
                  | (w3, Inr u) \<Rightarrow> (w3, Inr \<lparr>image_obj = l, photo_image = p\<rparr>))))"

text \<open>
  Lines 128 to 130, the first statements of \<open>Image.__init__\<close>: \<open>import io\<close>,
  \<open>from PIL import Image as PILImage, ImageTk\<close> and \<open>import requests\<close>, in this order.
  The first that fails raises.
\<close>

definition Image_imports :: "env \<Rightarrow> error option" where
  "Image_imports E =
     (case import_error E ''io'' of
        Some err \<Rightarrow> Some err
      | None \<Rightarrow>
          (case import_error E ''PIL'' of
             Some err \<Rightarrow> Some err
           | None \<Rightarrow> import_error E ''requests''))"

text \<open>Lines 132 to 159, the rest of the body.\<close>

definition Image_after_imports ::
  "env \<Rightarrow> pyval \<Rightarrow> string \<Rightarrow> pydict option \<Rightarrow> int option \<Rightarrow> int option \<Rightarrow> kwargs \<Rightarrow> world
     \<Rightarrow> world \<times> (error + Image)" where
  "Image_after_imports E screen_obj source packargs width height kwargs w =
     (if \<not> isinstance_Screen screen_obj then (w, Inl not_a_Screen)
      else
        let packargs = packargs_or_empty packargs
        in case load_source E source w of
             (w1, Inl err) \<Rightarrow> (w1, Inl err)
           | (w1, Inr img_data) \<Rightarrow>
               (case PILImage_open E img_data w1 of
                  (w2, Inl err) \<Rightarrow> (w2, Inl err)
                | (w2, Inr pil_img) \<Rightarrow>
                    (case resize_step E width height pil_img w2 of
                       (w3, Inl err) \<Rightarrow> (w3, Inl err)
                     | (w3, Inr pil_img') \<Rightarrow>
                         show_image E (the_Screen screen_obj) packargs kwargs pil_img' w3)))"

text \<open>
  \<open>Image.__init__(self, screen_obj, source, /, packargs=None, width=None, height=None,
  **kwargs)\<close>: the imports come first, before the test of \<open>screen_obj\<close>.
\<close>

definition Image_init ::
  "env \<Rightarrow> pyval \<Rightarrow> string \<Rightarrow> pydict option \<Rightarrow> int option \<Rightarrow> int option \<Rightarrow> kwargs \<Rightarrow> world
     \<Rightarrow> world \<times> (error + Image)" where
  "Image_init E screen_obj source packargs width height kwargs w =
     (case Image_imports E of
        Some err \<Rightarrow> (w, Inl err)
      | None \<Rightarrow> Image_after_imports E screen_obj source packargs width height kwargs w)"

subsection \<open>The methods\<close>

text \<open>
  A method gets \<open>self\<close> and the world and gives both back, with what it returns or
  raises.
\<close>

definition Button_config ::
  "env \<Rightarrow> Button \<Rightarrow> kwargs \<Rightarrow> world \<Rightarrow> (Button \<times> world) \<times> (error + unit)" where
  "Button_config E self kwargs w =
     (case tk_config E (button_obj self) kwargs w of (w', r) \<Rightarrow> ((self, w'), r))"

definition Button_destroy :: "env \<Rightarrow> Button \<Rightarrow> world \<Rightarrow> (Button \<times> world) \<times> (error + unit)" where
  "Button_destroy E self w =
     (case tk_destroy E (button_obj self) w of (w', r) \<Rightarrow> ((self, w'), r))"

definition Text_config ::
  "env \<Rightarrow> Text \<Rightarrow> kwargs \<Rightarrow> world \<Rightarrow> (Text \<times> world) \<times> (error + unit)" where
  "Text_config E self kwargs w =
     (case tk_config E (text_obj self) kwargs w of (w', r) \<Rightarrow> ((self, w'), r))"

definition Text_destroy :: "env \<Rightarrow> Text \<Rightarrow> world \<Rightarrow> (Text \<times> world) \<times> (error + unit)" where
  "Text_destroy E self w =
     (case tk_destroy E (text_obj self) w of (w', r) \<Rightarrow> ((self, w'), r))"

definition Image_config ::
  "env \<Rightarrow> Image \<Rightarrow> kwargs \<Rightarrow> world \<Rightarrow> (Image \<times> world) \<times> (error + unit)" where
  "Image_config E self kwargs w =
     (case tk_config E (image_obj self) kwargs w of (w', r) \<Rightarrow> ((self, w'), r))"

definition Image_destroy :: "env \<Rightarrow> Image \<Rightarrow> world \<Rightarrow> (Image \<times> world) \<times> (error + unit)" where
  "Image_destroy E self w =
     (case tk_destroy E (image_obj self) w of (w', r) \<Rightarrow> ((self, w'), r))"

definition Input_get :: "env \<Rightarrow> Input \<Rightarrow> world \<Rightarrow> (Input \<times> world) \<times> (error + string)" where
  "Input_get E self w = ((self, w), tk_get E (input_obj self) w)"

definition Input_config ::
  "env \<Rightarrow> Input \<Rightarrow> kwargs \<Rightarrow> world \<Rightarrow> (Input \<times> world) \<times> (error + unit)" where
  "Input_config E self kwargs w =
     (case tk_config E (input_obj self) kwargs w of (w', r) \<Rightarrow> ((self, w'), r))"

definition Input_destroy :: "env \<Rightarrow> Input \<Rightarrow> world \<Rightarrow> (Input \<times> world) \<times> (error + unit)" where
  "Input_destroy E self w =
     (case tk_destroy E (input_obj self) w of (w', r) \<Rightarrow> ((self, w'), r))"

text \<open>The abstract base \<open>Object\<close> with its two methods, over the four classes.\<close>

datatype Object = AButton Button | AText Text | AnImage Image | AnInput Input

fun native_widget :: "Object \<Rightarrow> nat" where
  "native_widget (AButton b) = button_obj b"
| "native_widget (AText t) = text_obj t"
| "native_widget (AnImage i) = image_obj i"
| "native_widget (AnInput i) = input_obj i"

fun config :: "env \<Rightarrow> Object \<Rightarrow> kwargs \<Rightarrow> world \<Rightarrow> (Object \<times> world) \<times> (error + unit)" where
  "config E (AButton b) kwargs w =
     (case Button_config E b kwargs w of ((b', w'), r) \<Rightarrow> ((AButton b', w'), r))"
| "config E (AText t) kwargs w =
     (case Text_config E t kwargs w of ((t', w'), r) \<Rightarrow> ((AText t', w'), r))"
| "config E (AnImage i) kwargs w =
     (case Image_config E i kwargs w of ((i', w'), r) \<Rightarrow> ((AnImage i', w'), r))"
| "config E (AnInput i) kwargs w =
     (case Input_config E i kwargs w of ((i', w'), r) \<Rightarrow> ((AnInput i', w'), r))"

fun destroy :: "env \<Rightarrow> Object \<Rightarrow> world \<Rightarrow> (Object \<times> world) \<times> (error + unit)" where
  "destroy E (AButton b) w =
     (case Button_destroy E b w of ((b', w'), r) \<Rightarrow> ((AButton b', w'), r))"
| "destroy E (AText t) w =
     (case Text_destroy E t w of ((t', w'), r) \<Rightarrow> ((AText t', w'), r))"
| "destroy E (AnImage i) w =
     (case Image_destroy E i w of ((i', w'), r) \<Rightarrow> ((AnImage i', w'), r))"
| "destroy E (AnInput i) w =
     (case Input_destroy E i w of ((i', w'), r) \<Rightarrow> ((AnInput i', w'), r))"

subsection \<open>A sample environment\<close>

text \<open>
  Every module can be imported. A toolkit that accepts every option but \<open>colour\<close>, a server that answers every
  request with the given status, and a decoder that delivers a 200 by 100 image. With
  \<open>strict\<close> the toolkit raises when a destroyed widget is destroyed again.
\<close>

definition empty_world :: world where
  "empty_world = \<lparr>widgets = [], photo_images = [], requests_sent = [], pil_calls = []\<rparr>"

definition example_env :: "int \<Rightarrow> bool \<Rightarrow> env" where
  "example_env status strict =
     \<lparr>import_error = (\<lambda>name. None),
      tk_create_error = (\<lambda>w k p kw. None),
      tk_initial_text = (\<lambda>w kw. []),
      tk_pack_error = (\<lambda>w h kw. None),
      tk_config_error =
        (\<lambda>w h kw. if ''colour'' \<in> fst ` set kw then Some (LibraryError ''unknown option'')
                   else None),
      tk_destroy_error =
        (\<lambda>w h. if strict \<and> \<not> alive (widgets w ! h) then Some (LibraryError ''destroyed'')
                else None),
      tk_get_error = (\<lambda>w h. None),
      http_response = (\<lambda>w url. Inr \<lparr>status_code = status, content = ''bytes''\<rparr>),
      pil_decode = (\<lambda>w src. Inr \<lparr>pil_size = (200, 100), pixels = 0\<rparr>),
      pil_resample = (\<lambda>img sz. Inr 1),
      photo_image_error = (\<lambda>w img. None)\<rparr>"

text \<open>The same environment on a machine where Pillow is not installed.\<close>

definition env_without_Pillow :: env where
  "env_without_Pillow =
     (example_env 200 False)
       \<lparr>import_error := (\<lambda>name. if name = ''PIL'' then Some (ImportError ''PIL'') else None)\<rparr>"

definition a_screen :: pyval where
  "a_screen = PyScreen \<lparr>root = 0\<rparr>"

definition sample_packargs :: pydict where
  "sample_packargs =
     [(PyStr ''side'', PyStr ''left''), (PyStr ''padx'', PyNone), (PyInt 1, PyNone),
      (PyStr ''pady'', PyInt 4)]"

text \<open>Worlds in which one widget has been constructed.\<close>

definition a_world_with_an_entry :: world where
  "a_world_with_an_entry = fst (Input_init (example_env 200 False) a_screen None [] empty_world)"

definition a_world_with_a_button :: world where
  "a_world_with_a_button =
     fst (Button_init (example_env 200 False) a_screen None [(''text'', PyStr ''Go'')]
       empty_world)"

definition a_world_with_an_image :: world where
  "a_world_with_an_image =
     fst (Image_init (example_env 200 True) a_screen ''a.png'' None (Some 100) None []
       empty_world)"

section \<open>Properties\<close>

subsection \<open>The arithmetic rounds correctly\<close>

text \<open>
  \<open>bit_length\<close> and \<open>floor_log2\<close> bracket their argument between two powers of two;
  \<open>round_half_even\<close> is within one half of the quotient. So \<open>round_to_double\<close> gives a
  nearest multiple of \<open>2 ^ e\<close> whose mantissa has 53 bits (fewer at the least
  exponent), and \<open>/\<close>, \<open>*\<close> and \<open>int\<close> are the correctly rounded quotient, the correctly
  rounded product and the truncation towards zero.
\<close>

lemma bit_length_nonneg: "0 \<le> bit_length n"
  by (induction n rule: bit_length.induct) (subst bit_length.simps, simp)

lemma doubling:
  "2 * q \<le> n \<Longrightarrow> n < 2 * q + 2 \<Longrightarrow> a \<le> q \<Longrightarrow> q < c \<Longrightarrow> 2 * a \<le> n \<and> n < 2 * (c::int)"
  by linarith

lemma bit_length_bounds:
  "0 < n \<Longrightarrow> 2 ^ nat (bit_length n - 1) \<le> n \<and> n < 2 ^ nat (bit_length n)"
proof (induction n rule: bit_length.induct)
  case (1 n)
  show ?case
  proof (cases "n = 1")
    case True
    have "bit_length 1 = 1"
      by (subst bit_length.simps, simp) (subst bit_length.simps, simp)
    with True show ?thesis by simp
  next
    case False
    with "1.prems" have h: "0 < n div 2" by simp
    from "1.IH" "1.prems" h have ih:
      "2 ^ nat (bit_length (n div 2) - 1) \<le> n div 2 \<and> n div 2 < 2 ^ nat (bit_length (n div 2))"
      by simp
    have b: "bit_length n = 1 + bit_length (n div 2)"
      using "1.prems" by (subst bit_length.simps) simp
    have pos: "0 < bit_length (n div 2)"
      using h by (subst bit_length.simps) (simp add: bit_length_nonneg add_pos_nonneg)
    then have e: "nat (bit_length n) = Suc (nat (bit_length (n div 2)))"
      and e': "nat (bit_length n - 1) = Suc (nat (bit_length (n div 2) - 1))"
      using b by simp_all
    define a :: int where "a = 2 ^ nat (bit_length (n div 2) - 1)"
    define c :: int where "c = 2 ^ nat (bit_length (n div 2))"
    define q where "q = n div 2"
    have dv: "2 * q \<le> n" "n < 2 * q + 2" unfolding q_def by presburger+
    from ih have aq: "a \<le> q" and qc: "q < c" by (simp_all add: a_def c_def q_def)
    from doubling [OF dv aq qc] have lo: "2 * a \<le> n" and hi: "n < 2 * c" by simp_all
    from lo hi e e' show ?thesis by (simp add: a_def c_def)
  qed
qed

lemma round_half_even_nearest:
  assumes "0 < d"
  shows "2 * \<bar>round_half_even n d * d - n\<bar> \<le> d"
proof -
  define q where "q = n div d"
  define r where "r = n mod d"
  have r: "0 \<le> r" "r < d" using assms by (simp_all add: r_def)
  have lo: "q * d - n = - r" and hi: "(q + 1) * d - n = d - r"
    by (simp_all add: q_def r_def algebra_simps minus_mod_eq_mult_div [symmetric])
  have "round_half_even n d = q \<and> 2 * r \<le> d \<or> round_half_even n d = q + 1 \<and> d \<le> 2 * r"
    by (auto simp: round_half_even_def Let_def q_def r_def)
  then show ?thesis
  proof
    assume "round_half_even n d = q \<and> 2 * r \<le> d"
    with lo r show ?thesis by simp
  next
    assume "round_half_even n d = q + 1 \<and> d \<le> 2 * r"
    with hi r show ?thesis by simp
  qed
qed

lemma bit_length_pos: "0 < n \<Longrightarrow> 1 \<le> bit_length n"
  by (subst bit_length.simps) (simp add: bit_length_nonneg)

lemma bit_length_real:
  assumes "0 < n"
  shows "2 powi (bit_length n - 1) \<le> real_of_int n \<and> real_of_int n < 2 powi bit_length n"
proof -
  from bit_length_pos [OF assms] have b: "0 \<le> bit_length n - 1" "0 \<le> bit_length n" by simp_all
  from bit_length_bounds [OF assms]
  have "real_of_int (2 ^ nat (bit_length n - 1)) \<le> real_of_int n"
    and "real_of_int n < real_of_int (2 ^ nat (bit_length n))"
    by (simp_all only: of_int_le_iff of_int_less_iff)
  then show ?thesis using b by (simp add: power_int_def)
qed

lemma floor_log2_test:
  assumes "0 < p" "0 < d"
  shows "(if 0 \<le> k then d * 2 ^ nat k \<le> p else d \<le> p * 2 ^ nat (- k)) =
         (real_of_int d * 2 powi k \<le> real_of_int p)"
proof (cases "0 \<le> k")
  case True
  have "(d * 2 ^ nat k \<le> p) = (real_of_int (d * 2 ^ nat k) \<le> real_of_int p)"
    by (simp only: of_int_le_iff)
  with True show ?thesis by (simp add: power_int_def)
next
  case False
  have "(d \<le> p * 2 ^ nat (- k)) = (real_of_int d \<le> real_of_int (p * 2 ^ nat (- k)))"
    by (simp only: of_int_le_iff)
  also have "\<dots> = (real_of_int d \<le> real_of_int p * 2 ^ nat (- k))" by simp
  also have "\<dots> = (real_of_int d * 2 powi k \<le> real_of_int p)"
    using False by (simp add: power_int_def field_simps)
  finally show ?thesis using False by simp
qed

lemma floor_log2_bounds:
  assumes "0 < p" "0 < d"
  shows "real_of_int d * 2 powi (floor_log2 p d) \<le> real_of_int p \<and>
         real_of_int p < real_of_int d * 2 powi (floor_log2 p d + 1)"
proof -
  define k where "k = bit_length p - bit_length d"
  have P: "2 powi (bit_length p - 1) \<le> real_of_int p" "real_of_int p < 2 powi bit_length p"
    using bit_length_real [OF assms(1)] by simp_all
  have D: "2 powi (bit_length d - 1) \<le> real_of_int d" "real_of_int d < 2 powi bit_length d"
    using bit_length_real [OF assms(2)] by simp_all
  have up: "real_of_int p < real_of_int d * 2 powi (k + 1)"
  proof -
    have "(2::real) powi bit_length p = 2 powi (bit_length d - 1) * 2 powi (k + 1)"
      by (simp add: k_def power_int_add [symmetric])
    also have "\<dots> \<le> real_of_int d * 2 powi (k + 1)"
      using D(1) by (simp add: mult_right_mono)
    finally show ?thesis using P(2) by linarith
  qed
  have lo: "real_of_int d * 2 powi (k - 1) \<le> real_of_int p"
  proof -
    have "real_of_int d * 2 powi (k - 1) \<le> 2 powi bit_length d * 2 powi (k - 1)"
      using D(2) by (simp add: mult_right_mono)
    also have "\<dots> = 2 powi (bit_length p - 1)"
      by (simp add: k_def power_int_add [symmetric])
    finally show ?thesis using P(1) by linarith
  qed
  show ?thesis
  proof (cases "real_of_int d * 2 powi k \<le> real_of_int p")
    case True
    then have "floor_log2 p d = k"
      by (simp add: floor_log2_def Let_def k_def [symmetric] floor_log2_test [OF assms])
    with True up show ?thesis by simp
  next
    case False
    then have "floor_log2 p d = k - 1"
      by (simp add: floor_log2_def Let_def k_def [symmetric] floor_log2_test [OF assms])
    with False lo show ?thesis by simp
  qed
qed

lemma round_half_even_real:
  assumes "0 < d"
  shows "\<bar>real_of_int (round_half_even n d) - real_of_int n / real_of_int d\<bar> \<le> 1 / 2"
proof -
  from round_half_even_nearest [OF assms, of n]
  have "real_of_int (2 * \<bar>round_half_even n d * d - n\<bar>) \<le> real_of_int d"
    by (simp only: of_int_le_iff)
  then have "2 * \<bar>real_of_int (round_half_even n d) * real_of_int d - real_of_int n\<bar>
      \<le> real_of_int d"
    by simp
  moreover have "real_of_int (round_half_even n d) * real_of_int d - real_of_int n =
      (real_of_int (round_half_even n d) - real_of_int n / real_of_int d) * real_of_int d"
    using assms by (simp add: field_simps)
  ultimately have "2 * (\<bar>real_of_int (round_half_even n d) - real_of_int n / real_of_int d\<bar>
      * real_of_int d) \<le> 1 * real_of_int d"
    using assms by (simp add: abs_mult)
  then show ?thesis using assms by simp
qed

lemma round_to_double_nearest:
  assumes d: "0 < d" and p: "p \<noteq> 0" and r: "round_to_double p d = Finite (m, e)"
  shows "\<bar>double_value (m, e) - real_of_int p / real_of_int d\<bar> \<le> 2 powi e / 2 \<and>
         \<bar>m\<bar> \<le> 2 ^ 53 \<and> - 1074 \<le> e \<and> e \<le> 971 \<and> (- 1074 < e \<longrightarrow> 2 ^ 52 \<le> \<bar>m\<bar>)"
proof -
  define a where "a = \<bar>p\<bar>"
  define k where "k = floor_log2 a d"
  define m' where "m' = (if 0 \<le> e then round_half_even a (d * 2 ^ nat e)
                         else round_half_even (a * 2 ^ nat (- e)) d)"
  define y where "y = real_of_int a / (real_of_int d * 2 powi e)"
  have a: "0 < a" using p by (simp add: a_def)
  from r p have e: "e = max (k - 52) (- 1074)" and m: "m = sgn p * m'" and fin: "e \<le> 971"
    by (auto simp: round_to_double_def Let_def a_def k_def m'_def split: if_splits)
  have pw: "0 < (2::real) powi e" by simp
  have near: "\<bar>real_of_int m' - y\<bar> \<le> 1 / 2"
  proof (cases "0 \<le> e")
    case True
    have "real_of_int a / real_of_int (d * 2 ^ nat e) = y"
      using True by (simp add: y_def power_int_def)
    with round_half_even_real [of "d * 2 ^ nat e" a] d True show ?thesis
      by (simp add: m'_def)
  next
    case False
    have "real_of_int (a * 2 ^ nat (- e)) / real_of_int d = y"
      using False by (simp add: y_def power_int_def field_simps)
    with round_half_even_real [OF d, of "a * 2 ^ nat (- e)"] False show ?thesis
      by (simp add: m'_def)
  qed
  from floor_log2_bounds [OF a d]
  have lo: "real_of_int d * 2 powi k \<le> real_of_int a"
    and hi: "real_of_int a < real_of_int d * 2 powi (k + 1)"
    by (simp_all add: k_def)
  have dpos: "0 < real_of_int d * 2 powi e" using d by simp
  have y_hi: "y < 2 ^ 53"
  proof -
    have "k + 1 \<le> e + 53" using e by simp
    then have "(2::real) powi (k + 1) \<le> 2 powi (e + 53)"
      by (intro power_int_increasing) simp_all
    with hi d have "real_of_int a < real_of_int d * 2 powi (e + 53)"
      by (smt (verit) mult_left_mono of_int_0_le_iff)
    also have "\<dots> = 2 ^ 53 * (real_of_int d * 2 powi e)"
      by (simp add: power_int_add)
    finally show ?thesis using dpos by (simp add: y_def pos_divide_less_eq)
  qed
  have y_lo: "- 1074 < e \<Longrightarrow> 2 ^ 52 \<le> y"
  proof -
    assume "- 1074 < e"
    with e have "k = e + 52" by simp
    with lo have "real_of_int d * 2 powi (e + 52) \<le> real_of_int a" by simp
    then have "2 ^ 52 * (real_of_int d * 2 powi e) \<le> real_of_int a"
      by (simp add: power_int_add)
    then show ?thesis using dpos by (simp add: y_def pos_le_divide_eq)
  qed
  have y0: "0 \<le> y" using a d by (simp add: y_def)
  from near y0 have m0: "0 \<le> m'" by linarith
  from near y_hi have "real_of_int m' < 2 ^ 53 + 1" by linarith
  then have "real_of_int m' < real_of_int (2 ^ 53 + 1)" by simp
  then have m_hi: "m' \<le> 2 ^ 53" by (simp only: of_int_less_iff)
  have m_lo: "- 1074 < e \<Longrightarrow> 2 ^ 52 \<le> m'"
  proof -
    assume "- 1074 < e"
    from near y_lo [OF this] have "2 ^ 52 - 1 < real_of_int m'" by linarith
    then have "real_of_int (2 ^ 52 - 1) < real_of_int m'" by simp
    then show ?thesis by (simp only: of_int_less_iff)
  qed
  have am: "\<bar>m\<bar> = m'" using m m0 p by (simp add: abs_mult abs_sgn_eq)
  have yd: "real_of_int a / real_of_int d = y * 2 powi e"
    using d by (simp add: y_def)
  have "\<bar>double_value (m, e) - real_of_int p / real_of_int d\<bar> =
      \<bar>real_of_int m' - y\<bar> * 2 powi e"
  proof (cases "0 < p")
    case True
    then have "m = m'" and "a = p" using m by (simp_all add: a_def)
    with yd have "double_value (m, e) - real_of_int p / real_of_int d =
        (real_of_int m' - y) * 2 powi e"
      by (simp add: double_value_def algebra_simps)
    then show ?thesis by (simp add: abs_mult)
  next
    case False
    with p have "m = - m'" and "a = - p" using m by (simp_all add: a_def)
    then have "real_of_int p / real_of_int d = - (y * 2 powi e)"
      using yd by simp
    with \<open>m = - m'\<close> have "double_value (m, e) - real_of_int p / real_of_int d =
        - ((real_of_int m' - y) * 2 powi e)"
      by (simp add: double_value_def algebra_simps)
    then show ?thesis by (simp add: abs_mult)
  qed
  also have "\<dots> \<le> 1 / 2 * 2 powi e"
    using near by (intro mult_right_mono) simp_all
  finally have v: "\<bar>double_value (m, e) - real_of_int p / real_of_int d\<bar> \<le> 2 powi e / 2"
    by simp
  from v am m_hi m_lo e fin show ?thesis by simp
qed

lemma py_truediv_nearest:
  assumes "py_truediv a b = Inr x" and "a \<noteq> 0"
  shows "\<bar>double_value x - real_of_int a / real_of_int b\<bar> \<le> 2 powi snd x / 2"
proof -
  from assms(1) have b: "b \<noteq> 0" and r: "round_to_double (a * sgn b) \<bar>b\<bar> = Finite x"
    by (auto simp: py_truediv_def split: if_splits pyfloat.splits)
  have q: "real_of_int (a * sgn b) / real_of_int \<bar>b\<bar> = real_of_int a / real_of_int b"
  proof (cases "0 < b")
    case True
    then show ?thesis by simp
  next
    case False
    with b have "b < 0" by simp
    then show ?thesis by simp
  qed
  from b assms(2) have "0 < \<bar>b\<bar>" "a * sgn b \<noteq> 0" by (simp_all add: sgn_if)
  from round_to_double_nearest [OF this, of "fst x" "snd x"] r q show ?thesis by simp
qed

lemma py_int_truncates:
  "py_int (Finite x) =
     Inr (if 0 \<le> double_value x then \<lfloor>double_value x\<rfloor> else \<lceil>double_value x\<rceil>)"
proof (cases x)
  case (Pair m e)
  show ?thesis
  proof (cases "0 \<le> e")
    case True
    then have "double_value (m, e) = real_of_int (m * 2 ^ nat e)"
      by (simp add: double_value_def power_int_def)
    with True Pair show ?thesis by (simp del: of_int_mult of_int_power)
  next
    case False
    define k where "k = nat (- e)"
    have v: "double_value (m, e) = real_of_int m / real_of_int (2 ^ k)"
      using False by (simp add: double_value_def power_int_def k_def field_simps)
    have pos: "0 < real_of_int (2 ^ k)" by simp
    show ?thesis
    proof (cases "0 \<le> m")
      case m: True
      then have "0 \<le> double_value (m, e)" by (simp add: double_value_def)
      moreover have "\<lfloor>double_value (m, e)\<rfloor> = m div 2 ^ k"
        unfolding v by (rule floor_divide_of_int_eq)
      moreover have "sgn m * (\<bar>m\<bar> div 2 ^ k) = m div 2 ^ k"
        using m by (cases "m = 0") (simp_all add: sgn_if)
      ultimately show ?thesis using False Pair by (simp add: k_def)
    next
      case m: False
      then have "double_value (m, e) < 0"
        by (simp add: double_value_def mult_neg_pos)
      moreover have "\<lceil>double_value (m, e)\<rceil> = - ((- m) div 2 ^ k)"
      proof -
        have "\<lceil>double_value (m, e)\<rceil> = - \<lfloor>real_of_int (- m) / real_of_int (2 ^ k)\<rfloor>"
          unfolding v ceiling_def by simp
        also have "\<lfloor>real_of_int (- m) / real_of_int (2 ^ k)\<rfloor> = (- m) div 2 ^ k"
          by (rule floor_divide_of_int_eq)
        finally show ?thesis .
      qed
      moreover have "sgn m * (\<bar>m\<bar> div 2 ^ k) = - ((- m) div 2 ^ k)"
        using m by (simp add: sgn_if)
      ultimately show ?thesis using False Pair by (simp add: k_def)
    qed
  qed
qed

lemma py_mul_nearest:
  assumes r: "py_mul n x = Inr (Finite z)" and c: "round_to_double n 1 = Finite c"
    and nz: "fst c * fst x \<noteq> 0"
  shows "\<bar>double_value z - double_value c * double_value x\<bar> \<le> 2 powi snd z / 2"
proof -
  obtain m1 e1 where c': "c = (m1, e1)" by (cases c)
  obtain m2 e2 where x': "x = (m2, e2)" by (cases x)
  have prod: "double_value c * double_value x = real_of_int (m1 * m2) * 2 powi (e1 + e2)"
    by (simp add: double_value_def c' x' power_int_add)
  show ?thesis
  proof (cases "0 \<le> e1 + e2")
    case True
    with r c have z: "round_to_double (m1 * m2 * 2 ^ nat (e1 + e2)) 1 = Finite z"
      by (simp add: py_mul_def c' x')
    have ne: "m1 * m2 * 2 ^ nat (e1 + e2) \<noteq> 0" using nz by (simp add: c' x')
    have eq: "double_value c * double_value x =
        real_of_int (m1 * m2 * 2 ^ nat (e1 + e2)) / real_of_int 1"
      using True by (simp add: prod power_int_def)
    show ?thesis
      unfolding eq
      using round_to_double_nearest [OF _ ne, of 1 "fst z" "snd z"] z by simp
  next
    case False
    with r c have z: "round_to_double (m1 * m2) (2 ^ nat (- (e1 + e2))) = Finite z"
      by (simp add: py_mul_def c' x')
    have ne: "m1 * m2 \<noteq> 0" using nz by (simp add: c' x')
    have eq: "double_value c * double_value x =
        real_of_int (m1 * m2) / real_of_int (2 ^ nat (- (e1 + e2)))"
      using False by (simp add: prod power_int_def field_simps)
    show ?thesis
      unfolding eq
      using round_to_double_nearest [OF _ ne, of "2 ^ nat (- (e1 + e2))" "fst z" "snd z"] z
      by simp
  qed
qed

subsection \<open>The library calls, step by step\<close>

lemma tk_new_Inr:
  "tk_new E k p kw w = (w1, Inr h) \<Longrightarrow>
     h = length (widgets w) \<and>
     w1 = w\<lparr>widgets := widgets w @
            [\<lparr>kind = k, master = p, options = kw, pack_options = None,
              alive = True, entry_text = tk_initial_text E w kw\<rparr>]\<rparr>"
  by (auto simp: tk_new_def split: option.splits)

lemma tk_pack_Inr:
  "tk_pack E h opts w = (w1, Inr u) \<Longrightarrow>
     w1 = update_widget h (\<lambda>x. x\<lparr>pack_options := Some opts\<rparr>) w"
  by (auto simp: tk_pack_def split: option.splits if_splits)

lemma new_then_pack:
  assumes "tk_new E k p kw w = (w1, Inr h)" and "tk_pack E h opts w1 = (w2, Inr u)"
  shows "h < length (widgets w2) \<and> pack_options (widgets w2 ! h) = Some opts"
  using tk_new_Inr [OF assms(1)] tk_pack_Inr [OF assms(2)]
  by (simp add: update_widget_def)

lemma PhotoImage_Inr:
  "PhotoImage E img w = (w1, Inr p) \<Longrightarrow>
     p = length (photo_images w) \<and> w1 = w\<lparr>photo_images := photo_images w @ [img]\<rparr>"
  by (auto simp: PhotoImage_def split: option.splits)

lemma tk_config_frame:
  "tk_config E h kw w = (w', r) \<Longrightarrow>
     photo_images w' = photo_images w \<and> requests_sent w' = requests_sent w \<and>
     pil_calls w' = pil_calls w \<and> length (widgets w') = length (widgets w) \<and>
     (\<forall>j. j \<noteq> h \<longrightarrow> widgets w' ! j = widgets w ! j)"
  by (auto simp: tk_config_def update_widget_def split: option.splits if_splits)

lemma tk_destroy_frame:
  "tk_destroy E h w = (w', r) \<Longrightarrow>
     photo_images w' = photo_images w \<and> requests_sent w' = requests_sent w \<and>
     pil_calls w' = pil_calls w \<and> length (widgets w') = length (widgets w) \<and>
     (\<forall>j. j \<noteq> h \<longrightarrow> widgets w' ! j = widgets w ! j)"
  by (auto simp: tk_destroy_def update_widget_def split: option.splits if_splits)

lemma tk_config_raises:
  "(snd (tk_config E h kw w) = Inl err) = (tk_config_error E w h kw = Some err)"
  by (auto simp: tk_config_def split: option.splits)

lemma tk_destroy_raises:
  "(snd (tk_destroy E h w) = Inl err) = (tk_destroy_error E w h = Some err)"
  by (auto simp: tk_destroy_def split: option.splits)

lemma startswith_prefix: "startswith s p = prefix p s"
  by (auto simp: startswith_def prefix_def) (metis append_eq_conv_conj)

lemma pack_kwargs_filter: "pack_kwargs pa = filter (\<lambda>kv. snd kv \<noteq> PyNone) pa"
  by (induction pa) (auto simp: pack_kwargs_def)

subsection \<open>The steps of the Image constructor\<close>

lemma load_source_frame:
  "load_source E src w = (w1, r) \<Longrightarrow>
     pil_calls w1 = pil_calls w \<and> widgets w1 = widgets w \<and> photo_images w1 = photo_images w"
  by (auto simp: load_source_def requests_get_def split: if_splits sum.splits)

lemma resize_step_frame:
  assumes "resize_step E wd ht img w = (w', r)"
  shows "requests_sent w' = requests_sent w \<and> prefix (pil_calls w) (pil_calls w') \<and>
         widgets w' = widgets w \<and> photo_images w' = photo_images w"
  using assms
  by (auto simp: resize_step_def resize_def split: option.splits sum.splits)

lemma resize_step_Inr:
  assumes "resize_step E wd ht img w = (w', Inr img')"
    and "resize_to wd ht (pil_size img) = Some (Inr sz)"
  shows "pil_size img' = sz \<and> pil_calls w' = pil_calls w @ [Resize img sz] \<and>
         photo_images w' = photo_images w"
  using assms by (auto simp: resize_step_def resize_def split: sum.splits)

lemma show_image_frame:
  assumes "show_image E scr pa kw img w = (w', r)"
  shows "requests_sent w' = requests_sent w \<and> pil_calls w' = pil_calls w"
  using assms
  by (auto simp: show_image_def PhotoImage_def tk_new_def tk_pack_def update_widget_def
      split: option.splits sum.splits prod.splits if_splits)

lemma show_image_Inr:
  assumes "show_image E scr pa kw img w = (w', Inr i)"
  shows "image_obj i < length (widgets w') \<and>
         pack_options (widgets w' ! image_obj i) = Some (pack_kwargs pa) \<and>
         photo_image i = length (photo_images w) \<and>
         photo_images w' = photo_images w @ [img] \<and>
         pil_calls w' = pil_calls w \<and> requests_sent w' = requests_sent w"
proof -
  from assms obtain w1 p w2 l u where
    p: "PhotoImage E img w = (w1, Inr p)" and
    n: "tk_new E LabelWidget (root scr) ((''image'', PyPhotoImage p) # kw) w1 = (w2, Inr l)" and
    k: "tk_pack E l (pack_kwargs pa) w2 = (w', Inr u)" and
    i: "i = \<lparr>image_obj = l, photo_image = p\<rparr>"
    by (auto simp: show_image_def split: prod.splits sum.splits if_splits)
  from new_then_pack [OF n k] PhotoImage_Inr [OF p] tk_new_Inr [OF n] tk_pack_Inr [OF k] i
  show ?thesis by (simp add: update_widget_def)
qed

lemma Image_init_steps:
  assumes "Image_init E s src pa wd ht kw w = (w', Inr im)"
  shows "\<exists>w1 d w2 img w3 img'.
           load_source E src w = (w1, Inr d) \<and> PILImage_open E d w1 = (w2, Inr img) \<and>
           resize_step E wd ht img w2 = (w3, Inr img') \<and>
           show_image E (the_Screen s) (packargs_or_empty pa) kw img' w3 = (w', Inr im)"
  using assms
  by (auto simp: Image_init_def Image_after_imports_def Let_def
      split: option.splits prod.splits sum.splits if_splits)

text \<open>What follows the loading of the source: the decoder is called, on that source.\<close>

lemma after_load_frame:
  assumes "(case PILImage_open E d w1 of
              (w2, Inl err) \<Rightarrow> (w2, Inl err)
            | (w2, Inr pil_img) \<Rightarrow>
                (case resize_step E wd ht pil_img w2 of
                   (w3, Inl err) \<Rightarrow> (w3, Inl err)
                 | (w3, Inr pil_img') \<Rightarrow> show_image E scr pa kw pil_img' w3)) = (w', r)"
  shows "requests_sent w' = requests_sent w1 \<and> prefix (pil_calls w1 @ [Open d]) (pil_calls w')"
proof -
  obtain w2 ro where o: "PILImage_open E d w1 = (w2, ro)"
    by (cases "PILImage_open E d w1")
  then have w2: "requests_sent w2 = requests_sent w1 \<and> pil_calls w2 = pil_calls w1 @ [Open d]"
    by (auto simp: PILImage_open_def)
  show ?thesis
  proof (cases ro)
    case (Inl err)
    with o assms w2 show ?thesis by auto
  next
    case (Inr pil_img)
    obtain w3 rr where s: "resize_step E wd ht pil_img w2 = (w3, rr)"
      by (cases "resize_step E wd ht pil_img w2")
    note f = resize_step_frame [OF s]
    show ?thesis
    proof (cases rr)
      case (Inl err)
      with o Inr s assms have "w' = w3" by auto
      with f w2 show ?thesis by auto
    next
      case i: (Inr pil_img')
      with o Inr s assms have "show_image E scr pa kw pil_img' w3 = (w', r)" by auto
      from show_image_frame [OF this] f w2 show ?thesis by auto
    qed
  qed
qed

subsection \<open>The size an image is resized to\<close>

lemma resize_to_width_only:
  "width \<noteq> 0 \<Longrightarrow>
     resize_to (Some width) None (orig_w, orig_h) =
       (case scaled_dim orig_h width orig_w of
          Inl err \<Rightarrow> Some (Inl err)
        | Inr h \<Rightarrow> Some (Inr (width, h)))"
  by (simp add: resize_to_def split: sum.splits)

lemma resize_to_height_only:
  "height \<noteq> 0 \<Longrightarrow>
     resize_to None (Some height) (orig_w, orig_h) =
       (case scaled_dim orig_w height orig_h of
          Inl err \<Rightarrow> Some (Inl err)
        | Inr w' \<Rightarrow> Some (Inr (w', height)))"
  by (simp add: resize_to_def split: sum.splits)

lemma resize_to_zero_width: "resize_to (Some 0) height orig = resize_to None height orig"
  by (cases orig) (simp add: resize_to_def)

lemma resize_to_zero_height: "resize_to width (Some 0) orig = resize_to width None orig"
  by (cases orig) (simp add: resize_to_def)

text \<open>
  The same quotient in exact arithmetic can truncate differently: \<open>1 / 49\<close> rounds
  down, and \<open>49 * (1 / 49)\<close> is just below \<open>1\<close>.
\<close>

lemma scaled_dim_rounds_in_binary64: "scaled_dim 49 1 49 = Inr 0"
  by code_simp

lemma scaled_dim_200_100:
  "scaled_dim 100 100 200 = Inr 50 \<and> scaled_dim 200 50 100 = Inr 100"
  by code_simp

subsection \<open>The type check\<close>

text \<open>
  C1, as amended. In Button, Text and Input a first argument that is not a Screen makes
  the constructor raise the TypeError and leave the world as it was. In Image the
  imports of \<open>io\<close>, \<open>PIL\<close> and \<open>requests\<close> run before the test: where they succeed the
  same holds, and where one fails its error is raised instead. Either way the
  constructor fails and the world is as it was: no widget, no PhotoImage, no HTTP request
  and no Pillow call.
\<close>

theorem non_Screen_is_TypeError:
  "\<not> isinstance_Screen screen_obj \<Longrightarrow>
     Button_init E screen_obj packargs kwargs w =
       (w, Inl (TypeError ''screen_obj must be an instance of Screen'')) \<and>
     Text_init E screen_obj packargs kwargs w =
       (w, Inl (TypeError ''screen_obj must be an instance of Screen'')) \<and>
     Input_init E screen_obj packargs kwargs w =
       (w, Inl (TypeError ''screen_obj must be an instance of Screen'')) \<and>
     (Image_imports E = None \<longrightarrow>
        Image_init E screen_obj source packargs width height kwargs w =
          (w, Inl (TypeError ''screen_obj must be an instance of Screen''))) \<and>
     Image_init E screen_obj source packargs width height kwargs w =
       (w, Inl (case Image_imports E of
                  None \<Rightarrow> TypeError ''screen_obj must be an instance of Screen''
                | Some err \<Rightarrow> err))"
  by (simp add: Button_init_def Text_init_def Image_init_def Image_after_imports_def
      Input_init_def not_a_Screen_def split: option.splits)

theorem non_Screen_is_TypeError_witness:
  "\<not> isinstance_Screen (PyStr ''window'') \<and>
   Image_imports (example_env 200 False) = None \<and>
   Button_init (example_env 200 False) (PyStr ''window'') None [] empty_world =
     (empty_world, Inl (TypeError ''screen_obj must be an instance of Screen'')) \<and>
   Text_init (example_env 200 False) (PyStr ''window'') None [] empty_world =
     (empty_world, Inl (TypeError ''screen_obj must be an instance of Screen'')) \<and>
   Input_init (example_env 200 False) (PyStr ''window'') None [] empty_world =
     (empty_world, Inl (TypeError ''screen_obj must be an instance of Screen'')) \<and>
   Image_init (example_env 200 False) (PyStr ''window'') ''http://host/a.png'' None
       (Some 100) None [] empty_world =
     (empty_world, Inl (TypeError ''screen_obj must be an instance of Screen''))"
  using non_Screen_is_TypeError [where screen_obj = "PyStr ''window''"
      and E = "example_env 200 False" and packargs = None and kwargs = "[]"
      and w = empty_world and source = "''http://host/a.png''" and width = "Some 100"
      and height = None]
  by (simp add: Image_imports_def example_env_def)

text \<open>
  C1 as stated fails for Image where Pillow cannot be imported: the import at line 129
  raises before \<open>screen_obj\<close> is looked at, so the error is the import error and not the
  TypeError. Nothing native is created there either.
\<close>

theorem Image_without_Pillow_counterexample:
  "\<not> isinstance_Screen (PyStr ''window'') \<and>
   Image_init env_without_Pillow (PyStr ''window'') ''a.png'' None None None [] empty_world =
     (empty_world, Inl (ImportError ''PIL'')) \<and>
   Image_init env_without_Pillow (PyStr ''window'') ''a.png'' None None None [] empty_world \<noteq>
     (empty_world, Inl (TypeError ''screen_obj must be an instance of Screen''))"
  by (simp add: Image_init_def Image_imports_def env_without_Pillow_def example_env_def)

subsection \<open>Packing options\<close>

lemma Button_init_Inr:
  assumes "Button_init E s pa kw w = (w', Inr b)"
  shows "button_obj b < length (widgets w') \<and>
         pack_options (widgets w' ! button_obj b) = Some (pack_kwargs (packargs_or_empty pa))"
proof -
  from assms obtain w1 h u where
    n: "tk_new E ButtonWidget (root (the_Screen s)) kw w = (w1, Inr h)" and
    k: "tk_pack E h (pack_kwargs (packargs_or_empty pa)) w1 = (w', Inr u)" and
    b: "b = \<lparr>button_obj = h\<rparr>"
    by (auto simp: Button_init_def Let_def split: prod.splits sum.splits if_splits)
  from new_then_pack [OF n k] b show ?thesis by simp
qed

lemma Text_init_Inr:
  assumes "Text_init E s pa kw w = (w', Inr t)"
  shows "text_obj t < length (widgets w') \<and>
         pack_options (widgets w' ! text_obj t) = Some (pack_kwargs (packargs_or_empty pa))"
proof -
  from assms obtain w1 h u where
    n: "tk_new E LabelWidget (root (the_Screen s)) kw w = (w1, Inr h)" and
    k: "tk_pack E h (pack_kwargs (packargs_or_empty pa)) w1 = (w', Inr u)" and
    t: "t = \<lparr>text_obj = h\<rparr>"
    by (auto simp: Text_init_def Let_def split: prod.splits sum.splits if_splits)
  from new_then_pack [OF n k] t show ?thesis by simp
qed

lemma Input_init_Inr:
  assumes "Input_init E s pa kw w = (w', Inr i)"
  shows "input_obj i < length (widgets w') \<and>
         pack_options (widgets w' ! input_obj i) = Some (pack_kwargs (packargs_or_empty pa))"
proof -
  from assms obtain w1 h u where
    n: "tk_new E EntryWidget (root (the_Screen s)) kw w = (w1, Inr h)" and
    k: "tk_pack E h (pack_kwargs (packargs_or_empty pa)) w1 = (w', Inr u)" and
    i: "i = \<lparr>input_obj = h\<rparr>"
    by (auto simp: Input_init_def Let_def split: prod.splits sum.splits if_splits)
  from new_then_pack [OF n k] i show ?thesis by simp
qed

lemma Image_init_Inr:
  assumes "Image_init E s src pa wd ht kw w = (w', Inr im)"
  shows "image_obj im < length (widgets w') \<and>
         pack_options (widgets w' ! image_obj im) = Some (pack_kwargs (packargs_or_empty pa))"
proof -
  from Image_init_steps [OF assms] obtain w3 img where
    "show_image E (the_Screen s) (packargs_or_empty pa) kw img w3 = (w', Inr im)"
    by blast
  from show_image_Inr [OF this] show ?thesis by simp
qed

lemma pack_kwargs_idem: "pack_kwargs (filter (\<lambda>kv. snd kv \<noteq> PyNone) pa) = pack_kwargs pa"
  by (simp add: pack_kwargs_filter)

text \<open>
  C2. In each of the four classes the dictionary expanded at the \<open>pack\<close> call is
  \<open>packargs\<close> without the entries whose value is \<open>None\<close>; the other entries keep their
  key, their value and their order. Entries whose value is \<open>None\<close> take no part in the
  construction: dropping them beforehand gives the same result and the same world, also
  when the \<open>pack\<close> call raises. When the construction succeeds, the new widget is packed
  with exactly the remaining entries.
\<close>

theorem None_entries_are_not_packed:
  "Button_init E screen_obj (Some pa) kwargs w =
     Button_init E screen_obj (Some (filter (\<lambda>kv. snd kv \<noteq> PyNone) pa)) kwargs w \<and>
   Text_init E screen_obj (Some pa) kwargs w =
     Text_init E screen_obj (Some (filter (\<lambda>kv. snd kv \<noteq> PyNone) pa)) kwargs w \<and>
   Image_init E screen_obj source (Some pa) width height kwargs w =
     Image_init E screen_obj source (Some (filter (\<lambda>kv. snd kv \<noteq> PyNone) pa)) width height
       kwargs w \<and>
   Input_init E screen_obj (Some pa) kwargs w =
     Input_init E screen_obj (Some (filter (\<lambda>kv. snd kv \<noteq> PyNone) pa)) kwargs w \<and>
   (Button_init E screen_obj packargs kwargs w = (w1, Inr b) \<longrightarrow>
      pack_options (widgets w1 ! button_obj b) =
        Some (filter (\<lambda>kv. snd kv \<noteq> PyNone) (packargs_or_empty packargs))) \<and>
   (Text_init E screen_obj packargs kwargs w = (w2, Inr t) \<longrightarrow>
      pack_options (widgets w2 ! text_obj t) =
        Some (filter (\<lambda>kv. snd kv \<noteq> PyNone) (packargs_or_empty packargs))) \<and>
   (Image_init E screen_obj source packargs width height kwargs w = (w3, Inr im) \<longrightarrow>
      pack_options (widgets w3 ! image_obj im) =
        Some (filter (\<lambda>kv. snd kv \<noteq> PyNone) (packargs_or_empty packargs))) \<and>
   (Input_init E screen_obj packargs kwargs w = (w4, Inr i) \<longrightarrow>
      pack_options (widgets w4 ! input_obj i) =
        Some (filter (\<lambda>kv. snd kv \<noteq> PyNone) (packargs_or_empty packargs)))"
proof (intro conjI impI)
  show "Button_init E screen_obj (Some pa) kwargs w =
     Button_init E screen_obj (Some (filter (\<lambda>kv. snd kv \<noteq> PyNone) pa)) kwargs w"
    unfolding Button_init_def packargs_or_empty_def option.case Let_def pack_kwargs_idem
    by (rule refl)
  show "Text_init E screen_obj (Some pa) kwargs w =
     Text_init E screen_obj (Some (filter (\<lambda>kv. snd kv \<noteq> PyNone) pa)) kwargs w"
    unfolding Text_init_def packargs_or_empty_def option.case Let_def pack_kwargs_idem
    by (rule refl)
  show "Image_init E screen_obj source (Some pa) width height kwargs w =
     Image_init E screen_obj source (Some (filter (\<lambda>kv. snd kv \<noteq> PyNone) pa)) width height
       kwargs w"
    unfolding Image_init_def Image_after_imports_def show_image_def packargs_or_empty_def
      option.case Let_def pack_kwargs_idem
    by (rule refl)
  show "Input_init E screen_obj (Some pa) kwargs w =
     Input_init E screen_obj (Some (filter (\<lambda>kv. snd kv \<noteq> PyNone) pa)) kwargs w"
    unfolding Input_init_def packargs_or_empty_def option.case Let_def pack_kwargs_idem
    by (rule refl)
next
  assume "Button_init E screen_obj packargs kwargs w = (w1, Inr b)"
  from Button_init_Inr [OF this]
  show "pack_options (widgets w1 ! button_obj b) =
      Some (filter (\<lambda>kv. snd kv \<noteq> PyNone) (packargs_or_empty packargs))"
    by (simp add: pack_kwargs_filter)
next
  assume "Text_init E screen_obj packargs kwargs w = (w2, Inr t)"
  from Text_init_Inr [OF this]
  show "pack_options (widgets w2 ! text_obj t) =
      Some (filter (\<lambda>kv. snd kv \<noteq> PyNone) (packargs_or_empty packargs))"
    by (simp add: pack_kwargs_filter)
next
  assume "Image_init E screen_obj source packargs width height kwargs w = (w3, Inr im)"
  from Image_init_Inr [OF this]
  show "pack_options (widgets w3 ! image_obj im) =
      Some (filter (\<lambda>kv. snd kv \<noteq> PyNone) (packargs_or_empty packargs))"
    by (simp add: pack_kwargs_filter)
next
  assume "Input_init E screen_obj packargs kwargs w = (w4, Inr i)"
  from Input_init_Inr [OF this]
  show "pack_options (widgets w4 ! input_obj i) =
      Some (filter (\<lambda>kv. snd kv \<noteq> PyNone) (packargs_or_empty packargs))"
    by (simp add: pack_kwargs_filter)
qed

lemmas run_defs =
  Button_init_def Text_init_def Input_init_def Image_init_def Image_imports_def
  Image_after_imports_def load_source_def
  requests_get_def raise_for_status_def PILImage_open_def resize_step_def resize_to_def
  resize_def show_image_def PhotoImage_def tk_new_def tk_pack_def tk_config_def
  tk_destroy_def tk_get_def tk_set_text_def update_widget_def packargs_or_empty_def
  pack_kwargs_def is_url_def startswith_def example_env_def empty_world_def a_screen_def
  sample_packargs_def set_options_def Button_config_def Button_destroy_def
  Text_config_def Text_destroy_def Image_config_def Image_destroy_def Input_config_def
  Input_destroy_def Input_get_def

theorem None_entries_are_not_packed_witness:
  "snd (Button_init (example_env 200 False) a_screen (Some sample_packargs) [] empty_world) =
     Inr \<lparr>button_obj = 0\<rparr> \<and>
   pack_options
     (widgets (fst (Button_init (example_env 200 False) a_screen (Some sample_packargs) []
        empty_world)) ! 0) =
     Some [(PyStr ''side'', PyStr ''left''), (PyStr ''pady'', PyInt 4)] \<and>
   pack_options
     (widgets (fst (Text_init (example_env 200 False) a_screen (Some sample_packargs) []
        empty_world)) ! 0) =
     Some [(PyStr ''side'', PyStr ''left''), (PyStr ''pady'', PyInt 4)] \<and>
   pack_options
     (widgets (fst (Image_init (example_env 200 False) a_screen ''a.png''
        (Some sample_packargs) None None [] empty_world)) ! 0) =
     Some [(PyStr ''side'', PyStr ''left''), (PyStr ''pady'', PyInt 4)] \<and>
   pack_options
     (widgets (fst (Input_init (example_env 200 False) a_screen (Some sample_packargs) []
        empty_world)) ! 0) =
     Some [(PyStr ''side'', PyStr ''left''), (PyStr ''pady'', PyInt 4)]"
  using None_entries_are_not_packed [of "example_env 200 False" a_screen sample_packargs "[]"
      empty_world "''a.png''" None None "Some sample_packargs"
      "fst (Button_init (example_env 200 False) a_screen (Some sample_packargs) [] empty_world)"
      "\<lparr>button_obj = 0\<rparr>"
      "fst (Text_init (example_env 200 False) a_screen (Some sample_packargs) [] empty_world)"
      "\<lparr>text_obj = 0\<rparr>"
      "fst (Image_init (example_env 200 False) a_screen ''a.png'' (Some sample_packargs)
         None None [] empty_world)"
      "\<lparr>image_obj = 0, photo_image = 0\<rparr>"
      "fst (Input_init (example_env 200 False) a_screen (Some sample_packargs) [] empty_world)"
      "\<lparr>input_obj = 0\<rparr>"]
  by (simp add: run_defs)

text \<open>
  A key that is not a string can only be dropped: with a value other than \<open>None\<close> the
  expansion at the \<open>pack\<close> call is a TypeError, raised after the widget was created.
\<close>

lemma non_string_key_is_TypeError:
  "Button_init (example_env 200 False) a_screen (Some [(PyInt 1, PyStr ''x'')]) []
       empty_world =
     (\<lparr>widgets = [\<lparr>kind = ButtonWidget, master = 0, options = [], pack_options = None,
                    alive = True, entry_text = []\<rparr>],
       photo_images = [], requests_sent = [], pil_calls = []\<rparr>,
      Inl (TypeError ''keywords must be strings''))"
  by (simp add: run_defs)

subsection \<open>Resizing\<close>

lemma Image_init_resized:
  assumes i: "Image_init E s src pa wd ht kw w = (w', Inr im)"
    and r: "\<And>ow oh. resize_to wd ht (ow, oh) =
              (case f ow oh of Inl err \<Rightarrow> Some (Inl err) | Inr sz \<Rightarrow> Some (Inr sz))"
  shows "\<exists>d img sz. pil_calls w' = pil_calls w @ [Open d, Resize img sz] \<and>
           f (fst (pil_size img)) (snd (pil_size img)) = Inr sz \<and>
           photo_image im < length (photo_images w') \<and>
           pil_size (photo_images w' ! photo_image im) = sz"
proof -
  from Image_init_steps [OF i] obtain w1 d w2 img w3 img' where
    l: "load_source E src w = (w1, Inr d)" and o: "PILImage_open E d w1 = (w2, Inr img)" and
    s: "resize_step E wd ht img w2 = (w3, Inr img')" and
    h: "show_image E (the_Screen s) (packargs_or_empty pa) kw img' w3 = (w', Inr im)"
    by blast
  from r [of "fst (pil_size img)" "snd (pil_size img)"]
  have rt: "resize_to wd ht (pil_size img) =
      (case f (fst (pil_size img)) (snd (pil_size img)) of
         Inl err \<Rightarrow> Some (Inl err) | Inr sz \<Rightarrow> Some (Inr sz))"
    by simp
  from s rt obtain sz where sz: "f (fst (pil_size img)) (snd (pil_size img)) = Inr sz"
    by (cases "f (fst (pil_size img)) (snd (pil_size img))") (auto simp: resize_step_def)
  with rt have "resize_to wd ht (pil_size img) = Some (Inr sz)" by simp
  note rs = resize_step_Inr [OF s this]
  from o have w2: "pil_calls w2 = pil_calls w1 @ [Open d]" by (auto simp: PILImage_open_def)
  from load_source_frame [OF l] w2 rs show_image_Inr [OF h] sz
  show ?thesis by (intro exI [of _ d] exI [of _ img] exI [of _ sz]) simp
qed

text \<open>
  C3, as amended. On a 200 by 100 image, \<open>width=100\<close> alone resizes to (100, 50) and
  \<open>height=50\<close> alone resizes to (100, 50). In general, when one of \<open>width\<close> and \<open>height\<close>
  is given and is not zero and the other is not given, the image is resized to the given
  dimension and, for the other, \<open>int(orig * (given / given_orig))\<close> as Python computes it
  (\<open>scaled_dim\<close>): that is the size passed to \<open>resize\<close> and the size of the image
  displayed.
\<close>

theorem one_nonzero_dimension_scales_the_other:
  "resize_to (Some 100) None (200, 100) = Some (Inr (100, 50)) \<and>
   resize_to None (Some 50) (200, 100) = Some (Inr (100, 50)) \<and>
   (width \<noteq> 0 \<longrightarrow>
      resize_to (Some width) None (orig_w, orig_h) =
        (case scaled_dim orig_h width orig_w of
           Inl err \<Rightarrow> Some (Inl err)
         | Inr h \<Rightarrow> Some (Inr (width, h)))) \<and>
   (height \<noteq> 0 \<longrightarrow>
      resize_to None (Some height) (orig_w, orig_h) =
        (case scaled_dim orig_w height orig_h of
           Inl err \<Rightarrow> Some (Inl err)
         | Inr w' \<Rightarrow> Some (Inr (w', height)))) \<and>
   (width \<noteq> 0 \<and>
    Image_init E screen_obj source packargs (Some width) None kwargs w = (w1, Inr im1) \<longrightarrow>
      (\<exists>d img h. pil_calls w1 = pil_calls w @ [Open d, Resize img (width, h)] \<and>
         scaled_dim (snd (pil_size img)) width (fst (pil_size img)) = Inr h \<and>
         pil_size (photo_images w1 ! photo_image im1) = (width, h))) \<and>
   (height \<noteq> 0 \<and>
    Image_init E screen_obj source packargs None (Some height) kwargs w = (w2, Inr im2) \<longrightarrow>
      (\<exists>d img w'. pil_calls w2 = pil_calls w @ [Open d, Resize img (w', height)] \<and>
         scaled_dim (fst (pil_size img)) height (snd (pil_size img)) = Inr w' \<and>
         pil_size (photo_images w2 ! photo_image im2) = (w', height)))"
proof (intro conjI impI)
  show "resize_to (Some 100) None (200, 100) = Some (Inr (100, 50))"
    by (simp add: resize_to_width_only scaled_dim_200_100)
  show "resize_to None (Some 50) (200, 100) = Some (Inr (100, 50))"
    by (simp add: resize_to_height_only scaled_dim_200_100)
next
  assume "width \<noteq> 0"
  then show "resize_to (Some width) None (orig_w, orig_h) =
        (case scaled_dim orig_h width orig_w of
           Inl err \<Rightarrow> Some (Inl err)
         | Inr h \<Rightarrow> Some (Inr (width, h)))"
    by (rule resize_to_width_only)
next
  assume "height \<noteq> 0"
  then show "resize_to None (Some height) (orig_w, orig_h) =
        (case scaled_dim orig_w height orig_h of
           Inl err \<Rightarrow> Some (Inl err)
         | Inr w' \<Rightarrow> Some (Inr (w', height)))"
    by (rule resize_to_height_only)
next
  assume a: "width \<noteq> 0 \<and>
    Image_init E screen_obj source packargs (Some width) None kwargs w = (w1, Inr im1)"
  let ?f = "\<lambda>ow oh. map_sum id (\<lambda>h. (width, h)) (scaled_dim oh width ow)"
  have "\<And>ow oh. resize_to (Some width) None (ow, oh) =
      (case ?f ow oh of Inl err \<Rightarrow> Some (Inl err) | Inr sz \<Rightarrow> Some (Inr sz))"
    using a by (auto simp: resize_to_width_only split: sum.splits)
  from Image_init_resized [where f = ?f, OF conjunct2 [OF a] this]
  obtain d img sz where
    p: "pil_calls w1 = pil_calls w @ [Open d, Resize img sz]" and
    f: "?f (fst (pil_size img)) (snd (pil_size img)) = Inr sz" and
    z: "pil_size (photo_images w1 ! photo_image im1) = sz"
    by blast
  from f obtain h where "scaled_dim (snd (pil_size img)) width (fst (pil_size img)) = Inr h"
    and "sz = (width, h)"
    by (cases "scaled_dim (snd (pil_size img)) width (fst (pil_size img))") auto
  with p z show "\<exists>d img h. pil_calls w1 = pil_calls w @ [Open d, Resize img (width, h)] \<and>
         scaled_dim (snd (pil_size img)) width (fst (pil_size img)) = Inr h \<and>
         pil_size (photo_images w1 ! photo_image im1) = (width, h)"
    by (intro exI [of _ d] exI [of _ img] exI [of _ h]) simp
next
  assume a: "height \<noteq> 0 \<and>
    Image_init E screen_obj source packargs None (Some height) kwargs w = (w2, Inr im2)"
  let ?f = "\<lambda>ow oh. map_sum id (\<lambda>w'. (w', height)) (scaled_dim ow height oh)"
  have "\<And>ow oh. resize_to None (Some height) (ow, oh) =
      (case ?f ow oh of Inl err \<Rightarrow> Some (Inl err) | Inr sz \<Rightarrow> Some (Inr sz))"
    using a by (auto simp: resize_to_height_only split: sum.splits)
  from Image_init_resized [where f = ?f, OF conjunct2 [OF a] this]
  obtain d img sz where
    p: "pil_calls w2 = pil_calls w @ [Open d, Resize img sz]" and
    f: "?f (fst (pil_size img)) (snd (pil_size img)) = Inr sz" and
    z: "pil_size (photo_images w2 ! photo_image im2) = sz"
    by blast
  from f obtain w' where "scaled_dim (fst (pil_size img)) height (snd (pil_size img)) = Inr w'"
    and "sz = (w', height)"
    by (cases "scaled_dim (fst (pil_size img)) height (snd (pil_size img))") auto
  with p z show "\<exists>d img w'. pil_calls w2 = pil_calls w @ [Open d, Resize img (w', height)] \<and>
         scaled_dim (fst (pil_size img)) height (snd (pil_size img)) = Inr w' \<and>
         pil_size (photo_images w2 ! photo_image im2) = (w', height)"
    by (intro exI [of _ d] exI [of _ img] exI [of _ w']) simp
qed

theorem one_nonzero_dimension_scales_the_other_witness:
  "(100::int) \<noteq> 0 \<and> (50::int) \<noteq> 0 \<and>
   snd (Image_init (example_env 200 False) a_screen ''a.png'' None (Some 100) None []
      empty_world) = Inr \<lparr>image_obj = 0, photo_image = 0\<rparr> \<and>
   snd (Image_init (example_env 200 False) a_screen ''a.png'' None None (Some 50) []
      empty_world) = Inr \<lparr>image_obj = 0, photo_image = 0\<rparr> \<and>
   resize_to (Some 100) None (200, 100) =
     (case scaled_dim 100 100 200 of Inl err \<Rightarrow> Some (Inl err) | Inr h \<Rightarrow> Some (Inr (100, h))) \<and>
   resize_to None (Some 50) (200, 100) =
     (case scaled_dim 200 50 100 of Inl err \<Rightarrow> Some (Inl err) | Inr w' \<Rightarrow> Some (Inr (w', 50))) \<and>
   (\<exists>d img h.
      pil_calls (fst (Image_init (example_env 200 False) a_screen ''a.png'' None (Some 100)
        None [] empty_world)) = pil_calls empty_world @ [Open d, Resize img (100, h)] \<and>
      scaled_dim (snd (pil_size img)) 100 (fst (pil_size img)) = Inr h \<and>
      pil_size (photo_images (fst (Image_init (example_env 200 False) a_screen ''a.png'' None
        (Some 100) None [] empty_world)) ! photo_image \<lparr>image_obj = 0, photo_image = 0\<rparr>) =
        (100, h)) \<and>
   (\<exists>d img w'.
      pil_calls (fst (Image_init (example_env 200 False) a_screen ''a.png'' None None
        (Some 50) [] empty_world)) = pil_calls empty_world @ [Open d, Resize img (w', 50)] \<and>
      scaled_dim (fst (pil_size img)) 50 (snd (pil_size img)) = Inr w' \<and>
      pil_size (photo_images (fst (Image_init (example_env 200 False) a_screen ''a.png'' None
        None (Some 50) [] empty_world)) ! photo_image \<lparr>image_obj = 0, photo_image = 0\<rparr>) =
        (w', 50))"
proof -
  let ?E = "example_env 200 False"
  let ?r1 = "Image_init ?E a_screen ''a.png'' None (Some 100) None [] empty_world"
  let ?r2 = "Image_init ?E a_screen ''a.png'' None None (Some 50) [] empty_world"
  have s1: "snd ?r1 = Inr \<lparr>image_obj = 0, photo_image = 0\<rparr>"
    by (simp add: run_defs scaled_dim_200_100)
  have s2: "snd ?r2 = Inr \<lparr>image_obj = 0, photo_image = 0\<rparr>"
    by (simp add: run_defs scaled_dim_200_100)
  have r1: "?r1 = (fst ?r1, Inr \<lparr>image_obj = 0, photo_image = 0\<rparr>)"
    using s1 by (simp add: prod_eq_iff)
  have r2: "?r2 = (fst ?r2, Inr \<lparr>image_obj = 0, photo_image = 0\<rparr>)"
    using s2 by (simp add: prod_eq_iff)
  note t = one_nonzero_dimension_scales_the_other [of 100 200 100 50 ?E a_screen "''a.png''"
      None "[]" empty_world "fst ?r1" "\<lparr>image_obj = 0, photo_image = 0\<rparr>"
      "fst ?r2" "\<lparr>image_obj = 0, photo_image = 0\<rparr>"]
  have e1: "\<exists>d img h.
      pil_calls (fst ?r1) = pil_calls empty_world @ [Open d, Resize img (100, h)] \<and>
      scaled_dim (snd (pil_size img)) 100 (fst (pil_size img)) = Inr h \<and>
      pil_size (photo_images (fst ?r1) ! photo_image \<lparr>image_obj = 0, photo_image = 0\<rparr>) =
        (100, h)"
    by (rule t [THEN conjunct2, THEN conjunct2, THEN conjunct2, THEN conjunct2,
          THEN conjunct1, THEN mp])
      (rule conjI [OF _ r1], simp)
  have e2: "\<exists>d img w'.
      pil_calls (fst ?r2) = pil_calls empty_world @ [Open d, Resize img (w', 50)] \<and>
      scaled_dim (fst (pil_size img)) 50 (snd (pil_size img)) = Inr w' \<and>
      pil_size (photo_images (fst ?r2) ! photo_image \<lparr>image_obj = 0, photo_image = 0\<rparr>) =
        (w', 50)"
    by (rule t [THEN conjunct2, THEN conjunct2, THEN conjunct2, THEN conjunct2,
          THEN conjunct2, THEN mp])
      (rule conjI [OF _ r2], simp)
  have e3: "resize_to (Some 100) None (200, 100) =
     (case scaled_dim 100 100 200 of Inl err \<Rightarrow> Some (Inl err) | Inr h \<Rightarrow> Some (Inr (100, h)))"
    by (rule t [THEN conjunct2, THEN conjunct2, THEN conjunct1, THEN mp]) simp
  have e4: "resize_to None (Some 50) (200, 100) =
     (case scaled_dim 200 50 100 of Inl err \<Rightarrow> Some (Inl err) | Inr w' \<Rightarrow> Some (Inr (w', 50)))"
    by (rule t [THEN conjunct2, THEN conjunct2, THEN conjunct2, THEN conjunct1, THEN mp]) simp
  show ?thesis
    by (intro conjI; (rule s1 s2 e1 e2 e3 e4 | simp))
qed

text \<open>
  C3 as stated fails where the one dimension given is zero: \<open>width=0\<close> alone is a
  dimension given, the formula gives the height \<open>int(100 * (0 / 200)) = 0\<close>, and yet no
  size is computed and the image is not resized.
\<close>

theorem one_given_dimension_zero_counterexample:
  "scaled_dim 100 0 200 = Inr 0 \<and>
   resize_to (Some 0) None (200, 100) = None \<and>
   resize_to (Some 0) None (200, 100) \<noteq> Some (Inr (0, 0)) \<and>
   pil_calls (fst (Image_init (example_env 200 False) a_screen ''a.png'' None (Some 0) None []
     empty_world)) = [Open (FromPath ''a.png'')] \<and>
   photo_images (fst (Image_init (example_env 200 False) a_screen ''a.png'' None (Some 0) None
     [] empty_world)) = [\<lparr>pil_size = (200, 100), pixels = 0\<rparr>]"
proof -
  have "scaled_dim 100 0 200 = Inr 0" by code_simp
  then show ?thesis by (simp add: run_defs)
qed

lemma Image_init_no_resize:
  assumes "Image_init E s src pa None None kw w = (w', r)"
  shows "pil_calls w' = pil_calls w \<or> (\<exists>d. pil_calls w' = pil_calls w @ [Open d])"
proof (cases "Image_imports E = None \<and> isinstance_Screen s")
  case False
  with assms show ?thesis
    by (auto simp: Image_init_def Image_after_imports_def split: option.splits)
next
  case True
  then have ini: "Image_init E s src pa None None kw w =
      Image_after_imports E s src pa None None kw w"
    by (simp add: Image_init_def)
  have n: "\<And>img v. resize_step E None None img v = (v, Inr img)"
    by (simp add: resize_step_def resize_to_def)
  obtain w1 rl where l: "load_source E src w = (w1, rl)" by (cases "load_source E src w")
  note lf = load_source_frame [OF l]
  show ?thesis
  proof (cases rl)
    case (Inl err)
    with True l assms lf show ?thesis by (auto simp: ini Image_after_imports_def)
  next
    case (Inr d)
    obtain w2 ro where o: "PILImage_open E d w1 = (w2, ro)" by (cases "PILImage_open E d w1")
    then have w2: "pil_calls w2 = pil_calls w1 @ [Open d]" by (auto simp: PILImage_open_def)
    show ?thesis
    proof (cases ro)
      case il: (Inl err)
      with True l Inr o assms have "w' = w2" by (auto simp: ini Image_after_imports_def)
      with w2 lf show ?thesis by auto
    next
      case ir: (Inr img)
      with True l Inr o assms n
      have "show_image E (the_Screen s) (packargs_or_empty pa) kw img w2 = (w', r)"
        by (auto simp: ini Image_after_imports_def)
      from show_image_frame [OF this] w2 lf show ?thesis by auto
    qed
  qed
qed

lemma Image_init_zero_width:
  "Image_init E s src pa (Some 0) height kw w = Image_init E s src pa None height kw w"
  unfolding Image_init_def Image_after_imports_def resize_step_def resize_to_zero_width
  by (rule refl)

lemma Image_init_zero_height:
  "Image_init E s src pa width (Some 0) kw w = Image_init E s src pa width None kw w"
  unfolding Image_init_def Image_after_imports_def resize_step_def resize_to_zero_height
  by (rule refl)

text \<open>
  C9. A \<open>width\<close> or \<open>height\<close> of 0 is treated as one not given: the constructor does
  exactly what it does with \<open>None\<close> in its place. With \<open>width=0\<close> and no height the image
  is not resized (the only Pillow call is the \<open>open\<close>); with \<open>width=0\<close> and a height
  \<open>h\<close> other than 0 the width is computed from \<open>h\<close> and the original size, and the image
  is resized to that width, not to width 0.
\<close>

theorem zero_dimension_counts_as_not_given:
  "Image_init E screen_obj source packargs (Some 0) height kwargs w =
     Image_init E screen_obj source packargs None height kwargs w \<and>
   Image_init E screen_obj source packargs width (Some 0) kwargs w =
     Image_init E screen_obj source packargs width None kwargs w \<and>
   resize_step E (Some 0) None pil_img w = (w, Inr pil_img) \<and>
   (Image_init E screen_obj source packargs (Some 0) None kwargs w = (w', r) \<longrightarrow>
      pil_calls w' = pil_calls w \<or> (\<exists>d. pil_calls w' = pil_calls w @ [Open d])) \<and>
   (h \<noteq> 0 \<longrightarrow>
      resize_to (Some 0) (Some h) (orig_w, orig_h) =
        (case scaled_dim orig_w h orig_h of
           Inl err \<Rightarrow> Some (Inl err)
         | Inr w' \<Rightarrow> Some (Inr (w', h))))"
  using Image_init_no_resize [of E screen_obj source packargs kwargs w w' r]
  by (simp add: Image_init_zero_width Image_init_zero_height
      resize_to_zero_width resize_to_height_only)
    (simp add: resize_step_def resize_to_def)

theorem zero_dimension_counts_as_not_given_witness:
  "(50::int) \<noteq> 0 \<and>
   Image_init (example_env 200 False) a_screen ''a.png'' None (Some 0) (Some 50) []
       empty_world =
     Image_init (example_env 200 False) a_screen ''a.png'' None None (Some 50) []
       empty_world \<and>
   Image_init (example_env 200 False) a_screen ''a.png'' None (Some 100) (Some 0) []
       empty_world =
     Image_init (example_env 200 False) a_screen ''a.png'' None (Some 100) None []
       empty_world \<and>
   resize_to (Some 0) (Some 50) (200, 100) = Some (Inr (100, 50)) \<and>
   photo_images (fst (Image_init (example_env 200 False) a_screen ''a.png'' None (Some 0)
     (Some 50) [] empty_world)) = [\<lparr>pil_size = (100, 50), pixels = 1\<rparr>] \<and>
   pil_calls (fst (Image_init (example_env 200 False) a_screen ''http://host/a.png'' None
     (Some 0) None [] empty_world)) = [Open (FromBytes ''bytes'')]"
proof -
  let ?E = "example_env 200 False"
  let ?r = "Image_init ?E a_screen ''http://host/a.png'' None (Some 0) None [] empty_world"
  note t = zero_dimension_counts_as_not_given [of ?E a_screen "''a.png''" None "Some 50" "[]"
      empty_world "Some 100" "\<lparr>pil_size = (200, 100), pixels = 0\<rparr>" _ _ 50 200 100]
  note u = zero_dimension_counts_as_not_given [of ?E a_screen "''http://host/a.png''" None
      None "[]" empty_world None "\<lparr>pil_size = (200, 100), pixels = 0\<rparr>" "fst ?r" "snd ?r"
      50 200 100]
  have "pil_calls (fst ?r) = [Open (FromBytes ''bytes'')]"
    by (simp add: run_defs)
  with t u show ?thesis
    by (simp add: scaled_dim_200_100) (simp add: run_defs scaled_dim_200_100)
qed

subsection \<open>The source of an image\<close>

text \<open>
  C4. When the imports have succeeded, the source is a URL and the response has an error
  status (400 to 599, for
  instance 404), the constructor raises the HTTP error right after the request: the
  world differs only by the request sent, so nothing was decoded, no PhotoImage was
  made and no label was created or packed.
\<close>

theorem http_error_stops_construction:
  assumes "Image_imports E = None"
    and "isinstance_Screen screen_obj" and "is_url source"
    and "http_response E w source = Inr resp"
    and "400 \<le> status_code resp" and "status_code resp < 600"
  shows "Image_init E screen_obj source packargs width height kwargs w =
           (w\<lparr>requests_sent := requests_sent w @ [source]\<rparr>,
            Inl (HTTPError (status_code resp))) \<and>
         widgets (fst (Image_init E screen_obj source packargs width height kwargs w)) =
           widgets w \<and>
         photo_images (fst (Image_init E screen_obj source packargs width height kwargs w)) =
           photo_images w \<and>
         pil_calls (fst (Image_init E screen_obj source packargs width height kwargs w)) =
           pil_calls w"
  using assms
  by (simp add: Image_init_def Image_after_imports_def load_source_def requests_get_def
      raise_for_status_def)

theorem http_error_stops_construction_witness:
  "Image_imports (example_env 404 False) = None \<and>
   isinstance_Screen a_screen \<and> is_url ''http://host/a.png'' \<and>
   http_response (example_env 404 False) empty_world ''http://host/a.png'' =
     Inr \<lparr>status_code = 404, content = ''bytes''\<rparr> \<and>
   Image_init (example_env 404 False) a_screen ''http://host/a.png'' None (Some 100) None []
       empty_world =
     (empty_world\<lparr>requests_sent := [''http://host/a.png'']\<rparr>, Inl (HTTPError 404)) \<and>
   widgets (fst (Image_init (example_env 404 False) a_screen ''http://host/a.png'' None
     (Some 100) None [] empty_world)) = []"
  using http_error_stops_construction [of "example_env 404 False" a_screen
      "''http://host/a.png''" empty_world "\<lparr>status_code = 404, content = ''bytes''\<rparr>"
      None "Some 100" None "[]"]
  by (simp add: Image_imports_def a_screen_def is_url_def startswith_def example_env_def
      empty_world_def)

text \<open>
  C6. Once the imports have succeeded, whether the source is fetched is decided by the
  prefix alone. A source that
  starts with \<open>http://\<close> or \<open>https://\<close> is requested, once; if the request returns a
  response without an error status, the decoder is called next, on the body of the
  response, and otherwise the constructor raises with no decoder call. Any other source
  is not requested, and the decoder is called on the source string itself as a path.
\<close>

theorem source_is_url_or_path:
  assumes "Image_imports E = None" and "isinstance_Screen screen_obj"
    and "Image_init E screen_obj source packargs width height kwargs w = (w', r)"
  shows "if prefix ''http://'' source \<or> prefix ''https://'' source
         then requests_sent w' = requests_sent w @ [source] \<and>
              (case http_response E w source of
                 Inl err \<Rightarrow> r = Inl err \<and> pil_calls w' = pil_calls w
               | Inr resp \<Rightarrow>
                   if 400 \<le> status_code resp \<and> status_code resp < 600
                   then r = Inl (HTTPError (status_code resp)) \<and> pil_calls w' = pil_calls w
                   else prefix (pil_calls w @ [Open (FromBytes (content resp))]) (pil_calls w'))
         else requests_sent w' = requests_sent w \<and>
              prefix (pil_calls w @ [Open (FromPath source)]) (pil_calls w')"
proof (cases "is_url source")
  case False
  with assms have "(case PILImage_open E (FromPath source) w of
              (w2, Inl err) \<Rightarrow> (w2, Inl err)
            | (w2, Inr pil_img) \<Rightarrow>
                (case resize_step E width height pil_img w2 of
                   (w3, Inl err) \<Rightarrow> (w3, Inl err)
                 | (w3, Inr pil_img') \<Rightarrow>
                     show_image E (the_Screen screen_obj) (packargs_or_empty packargs) kwargs
                       pil_img' w3)) = (w', r)"
    by (simp add: Image_init_def Image_after_imports_def load_source_def)
  from after_load_frame [OF this] False show ?thesis
    by (simp add: is_url_def startswith_prefix)
next
  case True
  let ?w1 = "w\<lparr>requests_sent := requests_sent w @ [source]\<rparr>"
  show ?thesis
  proof (cases "http_response E w source")
    case (Inl err)
    with True assms show ?thesis
      by (auto simp: Image_init_def Image_after_imports_def load_source_def requests_get_def is_url_def
          startswith_prefix)
  next
    case (Inr resp)
    show ?thesis
    proof (cases "400 \<le> status_code resp \<and> status_code resp < 600")
      case e: True
      with True Inr assms show ?thesis
        by (auto simp: Image_init_def Image_after_imports_def load_source_def requests_get_def raise_for_status_def
            is_url_def startswith_prefix)
    next
      case ok: False
      with True Inr assms have "(case PILImage_open E (FromBytes (content resp)) ?w1 of
              (w2, Inl err) \<Rightarrow> (w2, Inl err)
            | (w2, Inr pil_img) \<Rightarrow>
                (case resize_step E width height pil_img w2 of
                   (w3, Inl err) \<Rightarrow> (w3, Inl err)
                 | (w3, Inr pil_img') \<Rightarrow>
                     show_image E (the_Screen screen_obj) (packargs_or_empty packargs) kwargs
                       pil_img' w3)) = (w', r)"
        by (simp add: Image_init_def Image_after_imports_def load_source_def requests_get_def raise_for_status_def)
      from after_load_frame [OF this] True Inr ok show ?thesis
        by (auto simp: is_url_def startswith_prefix)
    qed
  qed
qed

theorem source_is_url_or_path_witness:
  "Image_imports (example_env 200 False) = None \<and>
   isinstance_Screen a_screen \<and>
   prefix ''https://'' ''https://host/a.png'' \<and>
   requests_sent (fst (Image_init (example_env 200 False) a_screen ''https://host/a.png''
     None None None [] empty_world)) = [''https://host/a.png''] \<and>
   prefix [Open (FromBytes ''bytes'')]
     (pil_calls (fst (Image_init (example_env 200 False) a_screen ''https://host/a.png''
        None None None [] empty_world))) \<and>
   \<not> prefix ''http://'' ''httpd/a.png'' \<and> \<not> prefix ''https://'' ''httpd/a.png'' \<and>
   requests_sent (fst (Image_init (example_env 200 False) a_screen ''httpd/a.png''
     None None None [] empty_world)) = [] \<and>
   prefix [Open (FromPath ''httpd/a.png'')]
     (pil_calls (fst (Image_init (example_env 200 False) a_screen ''httpd/a.png''
        None None None [] empty_world)))"
proof -
  let ?E = "example_env 200 False"
  let ?u = "Image_init ?E a_screen ''https://host/a.png'' None None None [] empty_world"
  let ?p = "Image_init ?E a_screen ''httpd/a.png'' None None None [] empty_world"
  have i: "Image_imports ?E = None" by (simp add: Image_imports_def example_env_def)
  have s: "isinstance_Screen a_screen" by (simp add: a_screen_def)
  have u: "?u = (fst ?u, snd ?u)" and p: "?p = (fst ?p, snd ?p)" by simp_all
  from source_is_url_or_path [OF i s u] source_is_url_or_path [OF i s p] i s
  show ?thesis by (simp add: example_env_def empty_world_def)
qed

subsection \<open>The methods\<close>

lemma config_eq:
  "config E obj kwargs w =
     ((obj, fst (tk_config E (native_widget obj) kwargs w)),
      snd (tk_config E (native_widget obj) kwargs w))"
  by (cases obj)
    (simp_all add: Button_config_def Text_config_def Image_config_def Input_config_def
      split: prod.splits)

lemma destroy_eq:
  "destroy E obj w =
     ((obj, fst (tk_destroy E (native_widget obj) w)),
      snd (tk_destroy E (native_widget obj) w))"
  by (cases obj)
    (simp_all add: Button_destroy_def Text_destroy_def Image_destroy_def Input_destroy_def
      split: prod.splits)

text \<open>
  C5. \<open>Input.get()\<close> changes neither the instance nor the world. Where the native
  \<open>get\<close> does not raise it returns the text the entry holds; so after the text of the
  entry has been set to \<open>s\<close>, it returns \<open>s\<close>.
\<close>

theorem Input_get_reads_the_entry:
  "fst (Input_get E self w) = (self, w) \<and>
   (tk_get_error E w (input_obj self) = None \<and> input_obj self < length (widgets w) \<longrightarrow>
      snd (Input_get E self w) = Inr (entry_text (widgets w ! input_obj self))) \<and>
   (tk_get_error E (tk_set_text (input_obj self) s w) (input_obj self) = None \<and>
    input_obj self < length (widgets w) \<longrightarrow>
      snd (Input_get E self (tk_set_text (input_obj self) s w)) = Inr s)"
  by (simp add: Input_get_def tk_get_def tk_set_text_def update_widget_def)

theorem Input_get_reads_the_entry_witness:
  "snd (Input_init (example_env 200 False) a_screen None [] empty_world) =
     Inr \<lparr>input_obj = 0\<rparr> \<and>
   tk_get_error (example_env 200 False) a_world_with_an_entry 0 = None \<and>
   tk_get_error (example_env 200 False) (tk_set_text 0 ''hello'' a_world_with_an_entry) 0 =
     None \<and>
   0 < length (widgets a_world_with_an_entry) \<and>
   snd (Input_get (example_env 200 False) \<lparr>input_obj = 0\<rparr> a_world_with_an_entry) = Inr [] \<and>
   Input_get (example_env 200 False) \<lparr>input_obj = 0\<rparr>
       (tk_set_text 0 ''hello'' a_world_with_an_entry) =
     ((\<lparr>input_obj = 0\<rparr>, tk_set_text 0 ''hello'' a_world_with_an_entry), Inr ''hello'')"
  using Input_get_reads_the_entry [of "example_env 200 False" "\<lparr>input_obj = 0\<rparr>"
      a_world_with_an_entry "''hello''"]
    Input_get_reads_the_entry [of "example_env 200 False" "\<lparr>input_obj = 0\<rparr>"
      "tk_set_text 0 ''hello'' a_world_with_an_entry" "''hello''"]
  by (simp add: prod_eq_iff) (simp add: a_world_with_an_entry_def run_defs)

text \<open>
  C7. In each class \<open>config(**kwargs)\<close> is the native \<open>config\<close> of the instance's
  widget with the same \<open>kwargs\<close> and nothing else: the instance is unchanged, the world
  is the one the native call leaves, and the method raises exactly when the native
  call raises, with the same error. When the native call accepts the options, they are
  the widget's options afterwards.
\<close>

theorem config_forwards_to_native:
  "config E obj kwargs w =
     ((obj, fst (tk_config E (native_widget obj) kwargs w)),
      snd (tk_config E (native_widget obj) kwargs w)) \<and>
   (snd (config E obj kwargs w) = Inl err) =
     (tk_config_error E w (native_widget obj) kwargs = Some err) \<and>
   (tk_config_error E w (native_widget obj) kwargs = None \<and>
    native_widget obj < length (widgets w) \<longrightarrow>
      snd (config E obj kwargs w) = Inr () \<and>
      options (widgets (snd (fst (config E obj kwargs w))) ! native_widget obj) =
        set_options (options (widgets w ! native_widget obj)) kwargs)"
  by (simp add: config_eq tk_config_raises) (simp add: tk_config_def update_widget_def)

theorem config_forwards_to_native_witness:
  "tk_config_error (example_env 200 False) a_world_with_a_button 0 [(''text'', PyStr ''Stop'')] =
     None \<and>
   0 < length (widgets a_world_with_a_button) \<and>
   snd (config (example_env 200 False) (AButton \<lparr>button_obj = 0\<rparr>) [(''text'', PyStr ''Stop'')]
     a_world_with_a_button) = Inr () \<and>
   options (widgets (snd (fst (config (example_env 200 False) (AButton \<lparr>button_obj = 0\<rparr>)
     [(''text'', PyStr ''Stop'')] a_world_with_a_button))) ! 0) = [(''text'', PyStr ''Stop'')] \<and>
   config (example_env 200 False) (AButton \<lparr>button_obj = 0\<rparr>) [(''colour'', PyStr ''red'')]
       a_world_with_a_button =
     ((AButton \<lparr>button_obj = 0\<rparr>, a_world_with_a_button),
      Inl (LibraryError ''unknown option''))"
  using config_forwards_to_native [of "example_env 200 False" "AButton \<lparr>button_obj = 0\<rparr>"
      "[(''text'', PyStr ''Stop'')]" a_world_with_a_button "LibraryError ''unknown option''"]
    config_forwards_to_native [of "example_env 200 False" "AButton \<lparr>button_obj = 0\<rparr>"
      "[(''colour'', PyStr ''red'')]" a_world_with_a_button "LibraryError ''unknown option''"]
  by (simp add: prod_eq_iff) (simp add: a_world_with_a_button_def run_defs)

text \<open>
  C8. In each class \<open>destroy()\<close> is one call of the native \<open>destroy\<close> on the instance's
  widget, with no test before it: the method raises exactly when that call raises. So
  a second \<open>destroy()\<close> raises exactly when the native layer raises on the widget in the
  world the first one left.
\<close>

theorem destroy_is_one_native_call:
  "destroy E obj w =
     ((obj, fst (tk_destroy E (native_widget obj) w)),
      snd (tk_destroy E (native_widget obj) w)) \<and>
   (snd (destroy E obj w) = Inl err) = (tk_destroy_error E w (native_widget obj) = Some err) \<and>
   (snd (destroy E obj (snd (fst (destroy E obj w)))) = Inl err) =
     (tk_destroy_error E (snd (fst (destroy E obj w))) (native_widget obj) = Some err)"
  by (simp add: destroy_eq tk_destroy_raises)

theorem destroy_is_one_native_call_witness:
  "snd (destroy (example_env 200 True) (AButton \<lparr>button_obj = 0\<rparr>) a_world_with_a_button) =
     Inr () \<and>
   alive (widgets (snd (fst (destroy (example_env 200 True) (AButton \<lparr>button_obj = 0\<rparr>)
     a_world_with_a_button))) ! 0) = False \<and>
   snd (destroy (example_env 200 True) (AButton \<lparr>button_obj = 0\<rparr>)
     (snd (fst (destroy (example_env 200 True) (AButton \<lparr>button_obj = 0\<rparr>)
       a_world_with_a_button)))) = Inl (LibraryError ''destroyed'') \<and>
   snd (destroy (example_env 200 False) (AButton \<lparr>button_obj = 0\<rparr>)
     (snd (fst (destroy (example_env 200 False) (AButton \<lparr>button_obj = 0\<rparr>)
       a_world_with_a_button)))) = Inr ()"
  using destroy_is_one_native_call [of "example_env 200 True" "AButton \<lparr>button_obj = 0\<rparr>"
      a_world_with_a_button "LibraryError ''destroyed''"]
    destroy_is_one_native_call [of "example_env 200 False" "AButton \<lparr>button_obj = 0\<rparr>"
      a_world_with_a_button "LibraryError ''destroyed''"]
  by (simp add: prod_eq_iff) (simp add: a_world_with_a_button_def run_defs)

text \<open>
  C10. \<open>Image.destroy()\<close> returns the instance as it was, so \<open>_photo_image\<close> is still
  set, and it changes nothing in the world but the label: the PhotoImages, the requests
  and the Pillow calls are the same and every other widget is untouched. For an instance
  that a construction returned, the PhotoImage made there is still held by the world
  after \<open>destroy()\<close>.
\<close>

theorem Image_destroy_keeps_photo_image:
  "(Image_destroy E self w = ((self', w'), r) \<longrightarrow>
      self' = self \<and> photo_images w' = photo_images w \<and>
      requests_sent w' = requests_sent w \<and> pil_calls w' = pil_calls w \<and>
      length (widgets w') = length (widgets w) \<and>
      (\<forall>h. h \<noteq> image_obj self \<longrightarrow> widgets w' ! h = widgets w ! h)) \<and>
   (Image_init E0 screen_obj source packargs width height kwargs w0 = (w, Inr self) \<and>
    Image_destroy E self w = ((self', w'), r) \<longrightarrow>
      photo_image self' = photo_image self \<and>
      photo_image self' < length (photo_images w') \<and>
      photo_images w' ! photo_image self' = photo_images w ! photo_image self)"
proof (intro conjI impI)
  assume d: "Image_destroy E self w = ((self', w'), r)"
  then have s: "self' = self" and t: "tk_destroy E (image_obj self) w = (w', r)"
    by (auto simp: Image_destroy_def split: prod.splits)
  from s show "self' = self" .
  from tk_destroy_frame [OF t]
  show "photo_images w' = photo_images w" "requests_sent w' = requests_sent w"
    "pil_calls w' = pil_calls w" "length (widgets w') = length (widgets w)"
    "\<forall>h. h \<noteq> image_obj self \<longrightarrow> widgets w' ! h = widgets w ! h"
    by simp_all
next
  assume a: "Image_init E0 screen_obj source packargs width height kwargs w0 = (w, Inr self) \<and>
    Image_destroy E self w = ((self', w'), r)"
  then have s: "self' = self" and t: "tk_destroy E (image_obj self) w = (w', r)"
    by (auto simp: Image_destroy_def split: prod.splits)
  from a Image_init_steps obtain w3 img where
    "show_image E0 (the_Screen screen_obj) (packargs_or_empty packargs) kwargs img w3 =
       (w, Inr self)"
    by blast
  from show_image_Inr [OF this] have "photo_image self < length (photo_images w)" by simp
  with s tk_destroy_frame [OF t]
  show "photo_image self' = photo_image self" "photo_image self' < length (photo_images w')"
    "photo_images w' ! photo_image self' = photo_images w ! photo_image self"
    by simp_all
qed

theorem Image_destroy_keeps_photo_image_witness:
  "Image_init (example_env 200 True) a_screen ''a.png'' None (Some 100) None [] empty_world =
     (a_world_with_an_image, Inr \<lparr>image_obj = 0, photo_image = 0\<rparr>) \<and>
   snd (Image_destroy (example_env 200 True) \<lparr>image_obj = 0, photo_image = 0\<rparr>
     a_world_with_an_image) = Inr () \<and>
   fst (fst (Image_destroy (example_env 200 True) \<lparr>image_obj = 0, photo_image = 0\<rparr>
     a_world_with_an_image)) = \<lparr>image_obj = 0, photo_image = 0\<rparr> \<and>
   alive (widgets (snd (fst (Image_destroy (example_env 200 True)
     \<lparr>image_obj = 0, photo_image = 0\<rparr> a_world_with_an_image))) ! 0) = False \<and>
   photo_images (snd (fst (Image_destroy (example_env 200 True)
     \<lparr>image_obj = 0, photo_image = 0\<rparr> a_world_with_an_image))) =
     [\<lparr>pil_size = (100, 50), pixels = 1\<rparr>]"
proof -
  let ?E = "example_env 200 True"
  let ?self = "\<lparr>image_obj = 0, photo_image = 0\<rparr>"
  let ?d = "Image_destroy ?E ?self a_world_with_an_image"
  have i: "Image_init ?E a_screen ''a.png'' None (Some 100) None [] empty_world =
      (a_world_with_an_image, Inr ?self)"
    by (simp add: a_world_with_an_image_def prod_eq_iff) (simp add: run_defs scaled_dim_200_100)
  have d: "?d = ((fst (fst ?d), snd (fst ?d)), snd ?d)" by simp
  have p: "photo_images a_world_with_an_image = [\<lparr>pil_size = (100, 50), pixels = 1\<rparr>]"
    by (simp add: a_world_with_an_image_def run_defs scaled_dim_200_100)
  have r: "snd ?d = Inr () \<and> alive (widgets (snd (fst ?d)) ! 0) = False"
    by (simp add: Image_destroy_def a_world_with_an_image_def run_defs scaled_dim_200_100
        split: prod.splits)
  from Image_destroy_keeps_photo_image [of ?E ?self a_world_with_an_image "fst (fst ?d)"
      "snd (fst ?d)" "snd ?d" ?E a_screen "''a.png''" None "Some 100" None "[]" empty_world]
    i d
  have "fst (fst ?d) = ?self \<and> photo_images (snd (fst ?d)) = photo_images a_world_with_an_image"
    by blast
  with i p r show ?thesis by simp
qed


end
